theory Spec2Isabelle
  imports Complex_Main "HOL-Library.Word" "HOL-Library.Product_Lexorder"
begin

unbundle bit_operations_syntax

section \<open>Data model of the CPU baker (bake\_cpu\_impl.cpp)\<close>

text \<open>
  The four opacity states of a micro-triangle. The enum itself is declared in the public
  header, which is not part of the sources at hand; the baker only casts it to and from
  integers.
\<close>

datatype OpacityState = Transparent | Opaque | UnknownTransparent | UnknownOpaque

text \<open>
  Modelled from the spec: the numeric values of the OpacityState enum (declared in the
  public header omm.h, which is missing): Transparent = 0, Opaque = 1,
  UnknownTransparent = 2, UnknownOpaque = 3. This is the cast \<open>(uint32_t)state\<close>.
\<close>

fun OpacityState_u32 :: "OpacityState \<Rightarrow> 32 word" where
  "OpacityState_u32 Transparent = 0"
| "OpacityState_u32 Opaque = 1"
| "OpacityState_u32 UnknownTransparent = 2"
| "OpacityState_u32 UnknownOpaque = 3"

text \<open>
  The two payload formats a work item can have; the source asserts
  \<open>OC1_2_State == 1\<close> and \<open>OC1_4_State == 2\<close>.
\<close>

datatype OMMFormat = OC1_2_State | OC1_4_State

fun OMMFormat_u16 :: "OMMFormat \<Rightarrow> 16 word" where
  "OMMFormat_u16 OC1_2_State = 1"
| "OMMFormat_u16 OC1_4_State = 2"

text \<open>
  Modelled from the spec: \<open>omm::bird::GetNumMicroTriangles\<close> (bird.h is missing): a
  subdivision level L has \<open>4^L\<close> micro-triangles.
\<close>

definition GetNumMicroTriangles :: "nat \<Rightarrow> nat" where
  "GetNumMicroTriangles subdivisionLevel = 4 ^ subdivisionLevel"

text \<open>
  Modelled from the spec: \<open>omm::bird::GetBitCount\<close> (bird.h is missing):
  OC1\_2\_State = 1 bit, OC1\_4\_State = 2 bits per micro-triangle.
\<close>

fun GetBitCount :: "OMMFormat \<Rightarrow> nat" where
  "GetBitCount OC1_2_State = 1"
| "GetBitCount OC1_4_State = 2"

subsection \<open>OmmArrayDataView / OmmArrayDataVector\<close>

text \<open>
  The state buffer of a work item: one byte per micro-triangle in the 4-or-2-state
  buffer, mirrored into a 3-state buffer. Only \<open>SetState\<close> writes the buffers, so the
  bytes are kept as states. A fresh vector is zero-filled, which is Transparent.
\<close>

record OmmArrayDataVector =
  data :: "OpacityState list"
  data3state :: "OpacityState list"

definition OmmArrayDataVector_new :: "nat \<Rightarrow> OmmArrayDataVector" where
  "OmmArrayDataVector_new subdivisionLevel =
     \<lparr> data = replicate (GetNumMicroTriangles subdivisionLevel) Transparent,
       data3state = replicate (GetNumMicroTriangles subdivisionLevel) Transparent \<rparr>"

definition SetState :: "OmmArrayDataVector \<Rightarrow> nat \<Rightarrow> OpacityState \<Rightarrow> OmmArrayDataVector" where
  "SetState v index state =
     v \<lparr> data := (data v)[index := state],
         data3state := (data3state v)[index :=
            (if state = UnknownTransparent then UnknownOpaque else state)] \<rparr>"

definition GetState :: "OmmArrayDataVector \<Rightarrow> nat \<Rightarrow> OpacityState" where
  "GetState v index = data v ! index"

definition Get3State :: "OmmArrayDataVector \<Rightarrow> nat \<Rightarrow> OpacityState" where
  "Get3State v index = data3state v ! index"

subsection \<open>OmmWorkItem\<close>

text \<open>
  The UV triangle is kept abstract (type \<open>'tri\<close>): its coordinates are floats and only
  the workload guard and the sort key read them.
\<close>

record 'tri OmmWorkItem =
  subdivisionLevel :: nat
  vmFormat :: OMMFormat
  uvTri :: 'tri
  primitiveIndices :: "nat list"
  vmDescOffset :: "32 word"
  vmSpecialIndex :: "32 word"
  vmStates :: OmmArrayDataVector

definition kNoSpecialIndex :: "32 word" where
  "kNoSpecialIndex = 0"

definition OmmWorkItem_new :: "OMMFormat \<Rightarrow> nat \<Rightarrow> nat \<Rightarrow> 'tri \<Rightarrow> 'tri OmmWorkItem" where
  "OmmWorkItem_new vmFormat' subdivisionLevel' primitiveIndex uvTri' =
     \<lparr> subdivisionLevel = subdivisionLevel',
       vmFormat = vmFormat',
       uvTri = uvTri',
       primitiveIndices = [primitiveIndex],
       vmDescOffset = 0xFFFFFFFF,
       vmSpecialIndex = kNoSpecialIndex,
       vmStates = OmmArrayDataVector_new subdivisionLevel' \<rparr>"

definition HasSpecialIndex :: "'tri OmmWorkItem \<Rightarrow> bool" where
  "HasSpecialIndex w = (vmSpecialIndex w \<noteq> kNoSpecialIndex)"

fun IsUnknown :: "OpacityState \<Rightarrow> bool" where
  "IsUnknown state = (state = UnknownOpaque \<or> state = UnknownTransparent)"

fun IsKnown :: "OpacityState \<Rightarrow> bool" where
  "IsKnown state = (state = Opaque \<or> state = Transparent)"

subsection \<open>MergeWorkItems\<close>

text \<open>
  One iteration of the loop over the micro-triangles: the state of \<open>to\<close> at
  \<open>uTriIt\<close> is rewritten from the states of \<open>to\<close> and \<open>from\<close>.
\<close>

definition MergeWorkItems_step ::
  "OmmArrayDataVector \<Rightarrow> nat \<Rightarrow> OmmArrayDataVector \<Rightarrow> OmmArrayDataVector" where
  "MergeWorkItems_step fromStates uTriIt toStates =
     (let toState = GetState toStates uTriIt;
          fromState = GetState fromStates uTriIt
      in if toState \<noteq> fromState then
           (if IsKnown fromState \<and> IsKnown toState then
              SetState toStates uTriIt UnknownOpaque
            else if IsKnown toState \<and> IsUnknown fromState then
              SetState toStates uTriIt fromState
            else toStates)
         else toStates)"

text \<open>
  \<open>MergeWorkItems(to, from)\<close>: the primitives of \<open>from\<close> move to \<open>to\<close>,
  \<open>from\<close> is disabled with the special index \<open>-1\<close>, and the states are merged.
  The pair returned is the new \<open>to\<close> and the new \<open>from\<close>.
\<close>

definition MergeWorkItems ::
  "'tri OmmWorkItem \<Rightarrow> 'tri OmmWorkItem \<Rightarrow> 'tri OmmWorkItem \<times> 'tri OmmWorkItem" where
  "MergeWorkItems to from =
     (let to1 = to \<lparr> primitiveIndices := primitiveIndices to @ primitiveIndices from \<rparr>;
          from1 = from \<lparr> primitiveIndices := [], vmSpecialIndex := - 1 \<rparr>;
          numMicroTriangles = GetNumMicroTriangles (subdivisionLevel from1)
      in (to1 \<lparr> vmStates := fold (MergeWorkItems_step (vmStates from1))
                               [0 ..< numMicroTriangles] (vmStates to1) \<rparr>,
          from1))"

subsection \<open>Bake flags and options\<close>

text \<open>The enum \<open>BakeFlagsInternal\<close>.\<close>

definition EnableInternalThreads :: "32 word" where
  "EnableInternalThreads = push_bit 0 1"

definition DisableSpecialIndices :: "32 word" where
  "DisableSpecialIndices = push_bit 1 1"

definition Force32BitIndices :: "32 word" where
  "Force32BitIndices = push_bit 2 1"

definition DisableDuplicateDetection :: "32 word" where
  "DisableDuplicateDetection = push_bit 3 1"

definition EnableNearDuplicateDetection :: "32 word" where
  "EnableNearDuplicateDetection = push_bit 4 1"

definition EnableWorkloadValidation :: "32 word" where
  "EnableWorkloadValidation = push_bit 5 1"

definition EnableAABBTesting :: "32 word" where
  "EnableAABBTesting = push_bit 6 1"

definition DisableRemovePoorQualityOMM :: "32 word" where
  "DisableRemovePoorQualityOMM = push_bit 7 1"

definition DisableLevelLineIntersection :: "32 word" where
  "DisableLevelLineIntersection = push_bit 8 1"

definition EnableNearDuplicateDetectionBruteForce :: "32 word" where
  "EnableNearDuplicateDetectionBruteForce = push_bit 9 1"

record Options =
  enableInternalThreads :: bool
  disableSpecialIndices :: bool
  disableDuplicateDetection :: bool
  enableNearDuplicateDetection :: bool
  enableNearDuplicateDetectionBruteForce :: bool
  enableWorkloadValidation :: bool
  enableAABBTesting :: bool
  disableRemovePoorQualityOMM :: bool
  disableLevelLineIntersection :: bool

text \<open>The constructor \<open>Options(BakeFlags flags)\<close>.\<close>

definition Options_new :: "32 word \<Rightarrow> Options" where
  "Options_new flags =
     \<lparr> enableInternalThreads = (flags AND EnableInternalThreads = EnableInternalThreads),
       disableSpecialIndices = (flags AND DisableSpecialIndices = DisableSpecialIndices),
       disableDuplicateDetection =
         (flags AND DisableDuplicateDetection = DisableDuplicateDetection),
       enableNearDuplicateDetection =
         (flags AND EnableNearDuplicateDetection = EnableNearDuplicateDetection),
       enableNearDuplicateDetectionBruteForce =
         (flags AND EnableNearDuplicateDetectionBruteForce =
            EnableNearDuplicateDetectionBruteForce),
       enableWorkloadValidation =
         (flags AND EnableWorkloadValidation = EnableWorkloadValidation),
       enableAABBTesting = (flags AND EnableAABBTesting = EnableAABBTesting),
       disableRemovePoorQualityOMM =
         (flags AND DisableRemovePoorQualityOMM = DisableRemovePoorQualityOMM),
       disableLevelLineIntersection =
         (flags AND DisableLevelLineIntersection = DisableLevelLineIntersection) \<rparr>"

text \<open>
  The fields of \<open>BakeInputDesc\<close> that the modelled stages read. The rejection
  threshold is a float in the source; every finite float is a rational, and the stage
  that reads it only compares it.
\<close>

record BakeInputDesc =
  indexCount :: "32 word"
  bakeFlags :: "32 word"
  ommFormat :: OMMFormat
  rejectionThreshold :: rat

datatype Result = SUCCESS | INVALID_ARGUMENT | WORKLOAD_TOO_BIG | FAILURE

text \<open>
  How a stage can stop early: it returns a status other than SUCCESS, or it indexes a
  vector out of range (undefined behaviour in the source, a fault in the model).
\<close>

datatype error = Status Result | OutOfBounds

subsection \<open>GetTexCoord for the Wrap addressing mode (texture.h)\<close>

text \<open>
  \<open>GetTexCoord<TextureAddressMode::Wrap>\<close>: an \<open>int2\<close> is a pair of 32-bit words;
  the casts to \<open>uint2\<close> and back keep the bits, and \<open>%\<close> is the unsigned remainder.
\<close>

definition GetTexCoord_Wrap :: "32 word \<times> 32 word \<Rightarrow> 32 word \<times> 32 word \<Rightarrow> 32 word \<times> 32 word" where
  "GetTexCoord_Wrap texCoord texSize =
     (fst texCoord mod fst texSize, snd texCoord mod snd texSize)"

subsection \<open>ValidateWorkloadSize\<close>

text \<open>
  The texel extent \<open>int2((uvTri.aabb_e - uvTri.aabb_s) * sizef)\<close> of a work item is
  computed in floating point; it is the parameter \<open>aabbOf\<close>, a pair of 32-bit ints.
  The product \<open>aabb.x * aabb.y\<close> is a 32-bit multiplication, and the conversion to
  \<open>uint64_t\<close> extends the sign.
\<close>

definition kMaxWorkloadSize :: "64 word" where
  "kMaxWorkloadSize = push_bit 27 1"

definition ValidateWorkloadSize ::
  "('tri \<Rightarrow> 32 word \<times> 32 word) \<Rightarrow> Options \<Rightarrow> 'tri OmmWorkItem list \<Rightarrow> Result" where
  "ValidateWorkloadSize aabbOf options vmWorkItems =
     (if \<not> enableWorkloadValidation options then SUCCESS
      else
        let workloadSize =
              fold (\<lambda>workItem workloadSize.
                      let aabb = aabbOf (uvTri workItem)
                      in workloadSize + (scast (fst aabb * snd aabb) :: 64 word))
                   vmWorkItems (0 :: 64 word)
        in if workloadSize > kMaxWorkloadSize then WORKLOAD_TOO_BIG else SUCCESS)"

subsection \<open>DeduplicateExact\<close>

text \<open>
  \<open>XXH64\<close> comes from a library; it is a parameter (bytes and seed to digest). The
  digest of a work item is taken over its 3-state bytes with seed 42.
\<close>

definition CalcDigest :: "(8 word list \<Rightarrow> 64 word \<Rightarrow> 64 word) \<Rightarrow> 'tri OmmWorkItem \<Rightarrow> 64 word" where
  "CalcDigest XXH64 workItem =
     XXH64 (map (\<lambda>s. ucast (OpacityState_u32 s)) (data3state (vmStates workItem))) 42"

fun DeduplicateExact_loop ::
  "(8 word list \<Rightarrow> 64 word \<Rightarrow> 64 word) \<Rightarrow> nat list \<Rightarrow> (64 word \<rightharpoonup> nat) \<Rightarrow>
   'tri OmmWorkItem list \<Rightarrow> 'tri OmmWorkItem list" where
  "DeduplicateExact_loop XXH64 [] digestToWorkItemIndex vmWorkItems = vmWorkItems"
| "DeduplicateExact_loop XXH64 (i # rest) digestToWorkItemIndex vmWorkItems =
     (let digest = CalcDigest XXH64 (vmWorkItems ! i)
      in case digestToWorkItemIndex digest of
           None \<Rightarrow>
             DeduplicateExact_loop XXH64 rest (digestToWorkItemIndex(digest \<mapsto> i)) vmWorkItems
         | Some j \<Rightarrow>
             let existingWorkItem = vmWorkItems ! j;
                 ws1 = vmWorkItems[j := existingWorkItem
                         \<lparr> primitiveIndices :=
                             primitiveIndices existingWorkItem @ primitiveIndices (vmWorkItems ! i) \<rparr>];
                 ws2 = ws1[i := (ws1 ! i) \<lparr> primitiveIndices := [], vmSpecialIndex := - 1 \<rparr>]
             in DeduplicateExact_loop XXH64 rest digestToWorkItemIndex ws2)"

definition DeduplicateExact ::
  "(8 word list \<Rightarrow> 64 word \<Rightarrow> 64 word) \<Rightarrow> Options \<Rightarrow> 'tri OmmWorkItem list \<Rightarrow>
   'tri OmmWorkItem list" where
  "DeduplicateExact XXH64 options vmWorkItems =
     (if disableDuplicateDetection options then vmWorkItems
      else DeduplicateExact_loop XXH64 [0 ..< length vmWorkItems] Map.empty vmWorkItems)"

subsection \<open>Hamming distances\<close>

text \<open>
  The distances are floats in the source. A count of at most \<open>2^24\<close> differences is an
  exact float, and so is its quotient by a power of four, so up to level 12 the values
  are the rationals below.
\<close>

definition HammingDistance3State :: "'tri OmmWorkItem \<Rightarrow> 'tri OmmWorkItem \<Rightarrow> rat" where
  "HammingDistance3State workItemA workItemB =
     (let numMicroTriangles = GetNumMicroTriangles (subdivisionLevel workItemA);
          numDiff = fold (\<lambda>uTriIt numDiff.
                       if Get3State (vmStates workItemA) uTriIt \<noteq> Get3State (vmStates workItemB) uTriIt
                       then numDiff + 1 else numDiff)
                     [0 ..< numMicroTriangles] (0 :: nat)
      in of_nat numDiff)"

definition NormalizedHammingDistance3State :: "'tri OmmWorkItem \<Rightarrow> 'tri OmmWorkItem \<Rightarrow> rat" where
  "NormalizedHammingDistance3State workItemA workItemB =
     (let numMicroTriangles = GetNumMicroTriangles (subdivisionLevel workItemA)
      in HammingDistance3State workItemA workItemB / of_nat numMicroTriangles)"

subsection \<open>DeduplicateSimilarBruteForce\<close>

text \<open>The float constants \<open>0.1f\<close> and \<open>FLT_MAX\<close>, as the rationals they denote.\<close>

definition kMergeThreshold :: rat where
  "kMergeThreshold = 13421773 / 134217728"

definition kMaxComparsions :: nat where
  "kMaxComparsions = 2048"

definition FLT_MAX :: rat where
  "FLT_MAX = 340282346638528859811704183484516925440"

text \<open>
  The inner loop over \<open>itB\<close>: one step updates the pair \<open>(minDist, nearestIndex)\<close>.
\<close>

definition BruteForce_inner_step ::
  "'tri OmmWorkItem list \<Rightarrow> nat set \<Rightarrow> nat \<Rightarrow> nat \<Rightarrow> rat \<times> int \<Rightarrow> rat \<times> int" where
  "BruteForce_inner_step vmWorkItems mergedWorkItems itA itB st =
     (let workItemA = vmWorkItems ! itA;
          workItemB = vmWorkItems ! itB;
          minDist = fst st
      in if vmSpecialIndex workItemB \<noteq> kNoSpecialIndex then st
         else if vmFormat workItemB \<noteq> OC1_4_State then st
         else if primitiveIndices workItemB = [] then st
         else if subdivisionLevel workItemA \<noteq> subdivisionLevel workItemB then st
         else if itB \<in> mergedWorkItems then st
         else
           let dist = NormalizedHammingDistance3State workItemA workItemB
           in if dist < kMergeThreshold \<and> dist < minDist then (dist, int itB) else st)"

text \<open>The body of the outer loop over \<open>itA\<close>; the state is the merged set and the items.\<close>

definition BruteForce_outer_step ::
  "nat \<Rightarrow> nat set \<times> 'tri OmmWorkItem list \<Rightarrow> nat set \<times> 'tri OmmWorkItem list" where
  "BruteForce_outer_step itA st =
     (let mergedWorkItems = fst st;
          vmWorkItems = snd st;
          workItemA = vmWorkItems ! itA
      in if vmSpecialIndex workItemA \<noteq> kNoSpecialIndex then st
         else if vmFormat workItemA \<noteq> OC1_4_State then st
         else
           let searchStart = itA + 1;
               searchEnd = min (kMaxComparsions + searchStart) (length vmWorkItems);
               nearestIndex = snd (fold (BruteForce_inner_step vmWorkItems mergedWorkItems itA)
                                        [searchStart ..< searchEnd] (FLT_MAX, - 1))
           in if nearestIndex \<ge> 0 then
                let merged = MergeWorkItems workItemA (vmWorkItems ! nat nearestIndex)
                in (insert (nat nearestIndex) (insert itA mergedWorkItems),
                    vmWorkItems[itA := fst merged, nat nearestIndex := snd merged])
              else st)"

definition DeduplicateSimilarBruteForce ::
  "Options \<Rightarrow> 'tri OmmWorkItem list \<Rightarrow> 'tri OmmWorkItem list" where
  "DeduplicateSimilarBruteForce options vmWorkItems =
     (if \<not> enableNearDuplicateDetection options \<or> \<not> enableNearDuplicateDetectionBruteForce options
      then vmWorkItems
      else if length vmWorkItems = 0 then vmWorkItems
      else snd (fold BruteForce_outer_step [0 ..< length vmWorkItems - 1] ({}, vmWorkItems)))"

subsection \<open>PromoteToSpecialIndices\<close>

text \<open>
  The body of the loop over the work items. The known fraction is a float in the source:
  a count of at most \<open>2^24\<close> divided by a power of four, which is exact.
\<close>

definition PromoteToSpecialIndices_item ::
  "BakeInputDesc \<Rightarrow> Options \<Rightarrow> 'tri OmmWorkItem \<Rightarrow> 'tri OmmWorkItem" where
  "PromoteToSpecialIndices_item desc options workItem =
     (let numMicroTriangles = GetNumMicroTriangles (subdivisionLevel workItem);
          commonState0 = GetState (vmStates workItem) 0;
          allEqual0 = fold (\<lambda>uTriIt allEqual.
                              allEqual \<and> commonState0 = GetState (vmStates workItem) uTriIt)
                           [1 ..< numMicroTriangles] True;
          rejected =
            (if \<not> allEqual0 \<and> rejectionThreshold desc > 0 then
               let known = fold (\<lambda>uTriIt known.
                                   if IsKnown (GetState (vmStates workItem) uTriIt)
                                   then known + 1 else known)
                                [0 ..< numMicroTriangles] (0 :: nat);
                   knownFrac = (of_nat known / of_nat numMicroTriangles :: rat)
               in knownFrac < rejectionThreshold desc
             else False);
          allEqual = (if rejected then True else allEqual0);
          commonState = (if rejected then UnknownTransparent else commonState0)
      in if allEqual \<and> \<not> disableSpecialIndices options then
           workItem \<lparr> vmSpecialIndex := - OpacityState_u32 commonState - 1 \<rparr>
         else workItem)"

definition PromoteToSpecialIndices ::
  "BakeInputDesc \<Rightarrow> Options \<Rightarrow> 'tri OmmWorkItem list \<Rightarrow> 'tri OmmWorkItem list" where
  "PromoteToSpecialIndices desc options vmWorkItems =
     map (PromoteToSpecialIndices_item desc options) vmWorkItems"

subsection \<open>CreateUsageHistograms\<close>

text \<open>
  Modelled from the spec: the constants \<open>kMaxSubdivLevel\<close> and \<open>kMaxNumSubdivLevels\<close>
  (defines.h is missing): the levels are 0 to 12.
\<close>

definition kMaxSubdivLevel :: nat where
  "kMaxSubdivLevel = 12"

definition kMaxNumSubdivLevels :: nat where
  "kMaxNumSubdivLevels = 13"

text \<open>
  \<open>VisibilityMapUsageHistogram\<close>: a table of 32-bit counters indexed by format and
  level. \<open>Inc\<close> beyond the last level is out of range.
\<close>

type_synonym VisibilityMapUsageHistogram = "OMMFormat \<Rightarrow> nat \<Rightarrow> 32 word"

definition Histogram_new :: VisibilityMapUsageHistogram where
  "Histogram_new = (\<lambda>format subDivLvl. 0)"

definition Inc ::
  "VisibilityMapUsageHistogram \<Rightarrow> OMMFormat \<Rightarrow> nat \<Rightarrow> 32 word \<Rightarrow> error + VisibilityMapUsageHistogram" where
  "Inc h format subDivLvl count =
     (if subDivLvl < kMaxNumSubdivLevels
      then Inr (h(format := (h format)(subDivLvl := h format subDivLvl + count)))
      else Inl OutOfBounds)"

definition GetOmmCount :: "VisibilityMapUsageHistogram \<Rightarrow> OMMFormat \<Rightarrow> nat \<Rightarrow> 32 word" where
  "GetOmmCount h format subDivLvl = h format subDivLvl"

fun CreateUsageHistograms ::
  "'tri OmmWorkItem list \<Rightarrow> VisibilityMapUsageHistogram \<Rightarrow> VisibilityMapUsageHistogram \<Rightarrow>
   error + (VisibilityMapUsageHistogram \<times> VisibilityMapUsageHistogram)" where
  "CreateUsageHistograms [] arrayHistogram indexHistogram = Inr (arrayHistogram, indexHistogram)"
| "CreateUsageHistograms (workItem # rest) arrayHistogram indexHistogram =
     (if vmSpecialIndex workItem = kNoSpecialIndex then
        (case Inc arrayHistogram (vmFormat workItem) (subdivisionLevel workItem) 1 of
           Inl e \<Rightarrow> Inl e
         | Inr arrayHistogram' \<Rightarrow>
             (case Inc indexHistogram (vmFormat workItem) (subdivisionLevel workItem)
                     (of_nat (length (primitiveIndices workItem))) of
                Inl e \<Rightarrow> Inl e
              | Inr indexHistogram' \<Rightarrow> CreateUsageHistograms rest arrayHistogram' indexHistogram'))
      else CreateUsageHistograms rest arrayHistogram indexHistogram)"

subsection \<open>MicromapSpatialSort\<close>

text \<open>
  The Morton code of the quantised centroid of the UV triangle is computed in floating
  point and by \<open>xy_to_morton\<close> (math.h, missing); it is the parameter \<open>mCodeOf\<close>.
\<close>

definition sortKey ::
  "('tri \<Rightarrow> 64 word) \<Rightarrow> nat \<Rightarrow> 'tri OmmWorkItem \<Rightarrow> 64 word \<times> 32 word" where
  "sortKey mCodeOf vmIndex vm =
     (if vmSpecialIndex vm \<noteq> kNoSpecialIndex then
        (push_bit 63 1 OR of_nat vmIndex, of_nat vmIndex)
      else
        (push_bit 60 (of_nat (subdivisionLevel vm)) OR mCodeOf (uvTri vm), of_nat vmIndex))"

text \<open>
  \<open>std::sort\<close> with \<open>std::greater\<close> on the pairs: descending lexicographic order. The
  pairs are pairwise different (the second components are), so the order is determined.
\<close>

definition MicromapSpatialSort ::
  "('tri \<Rightarrow> 64 word) \<Rightarrow> 'tri OmmWorkItem list \<Rightarrow> (64 word \<times> 32 word) list" where
  "MicromapSpatialSort mCodeOf vmWorkItems =
     rev (sort_key (\<lambda>p. (unat (fst p), unat (snd p)))
            (map (\<lambda>vmIndex. sortKey mCodeOf vmIndex (vmWorkItems ! vmIndex))
                 [0 ..< length vmWorkItems]))"

subsection \<open>Serialize\<close>

record OpacityMicromapDesc =
  desc_subdivisionLevel :: "16 word"
  desc_format :: "16 word"
  desc_offset :: "32 word"

record OpacityMicromapUsageCount =
  usage_count :: "32 word"
  usage_subdivisionLevel :: "16 word"
  usage_format :: "16 word"

text \<open>
  The index buffer of the result is a vector of \<open>int32_t\<close> that is narrowed in place to
  \<open>int16_t\<close> entries when the format becomes \<open>I16_UINT\<close>.
\<close>

datatype IndexBuffer = I16_UINT "16 word list" | I32_UINT "32 word list"

record BakeResultImpl =
  ommArrayData :: "8 word list"
  ommDescArray :: "OpacityMicromapDesc list"
  ommIndexBuffer :: IndexBuffer
  ommArrayHistogram :: "OpacityMicromapUsageCount list"
  ommIndexHistogram :: "OpacityMicromapUsageCount list"

text \<open>
  Modelled from the spec: \<open>SpecialIndex::FullyUnknownOpaque\<close> (declared in omm.h, which
  is missing) is the value \<open>-4\<close> that degenerate and disabled triangles keep.
\<close>

definition FullyUnknownOpaque :: "32 word" where
  "FullyUnknownOpaque = - 4"

text \<open>
  The first loop of \<open>Serialize\<close>: the descriptor count (\<open>uint32_t\<close>) and the size of the
  array data (\<open>size_t\<close>, which these sums cannot overflow), both read from the array
  histogram at the format of the input descriptor.
\<close>

definition Serialize_sizes :: "BakeInputDesc \<Rightarrow> VisibilityMapUsageHistogram \<Rightarrow> 32 word \<times> nat" where
  "Serialize_sizes desc arrayHistogram =
     fold (\<lambda>i acc.
             let ommCount = GetOmmCount arrayHistogram (ommFormat desc) i;
                 numOmmForSubDivLvl = GetNumMicroTriangles i * GetBitCount (ommFormat desc)
             in (fst acc + ommCount,
                 snd acc + unat ommCount * max (drop_bit 3 numOmmForSubDivLvl) 1))
          [0 ..< kMaxNumSubdivLevels] (0, 0)"

text \<open>The loop that packs the states of one work item into the array data.\<close>

fun Serialize_states ::
  "bool \<Rightarrow> OmmArrayDataVector \<Rightarrow> nat \<Rightarrow> nat list \<Rightarrow> 8 word list \<Rightarrow> error + 8 word list" where
  "Serialize_states is2State states ommArrayDataOffset [] arrayData = Inr arrayData"
| "Serialize_states is2State states ommArrayDataOffset (uTriIt # rest) arrayData =
     (let state = OpacityState_u32 (GetState states uTriIt);
          val = (if is2State then ucast (push_bit (uTriIt AND 7) state)
                 else ucast (push_bit (push_bit 1 (uTriIt AND 3)) state)) :: 8 word;
          byteIndex = drop_bit (2 + (if is2State then 1 else 0)) uTriIt;
          pos = ommArrayDataOffset + byteIndex
      in if pos < length arrayData then
           Serialize_states is2State states ommArrayDataOffset rest
             (arrayData[pos := (arrayData ! pos) OR val])
         else Inl OutOfBounds)"

record 'tri SerializeState =
  st_ommArrayData :: "8 word list"
  st_ommDescArray :: "OpacityMicromapDesc list"
  st_ommArrayDataOffset :: "32 word"
  st_vmDescOffset :: "32 word"
  st_vmWorkItems :: "'tri OmmWorkItem list"

text \<open>The loop over the sort keys that writes the descriptors and the array data.\<close>

fun Serialize_loop ::
  "nat \<Rightarrow> nat \<Rightarrow> (64 word \<times> 32 word) list \<Rightarrow> 'tri SerializeState \<Rightarrow> error + 'tri SerializeState" where
  "Serialize_loop ommBitCount ommArrayDataSize [] st = Inr st"
| "Serialize_loop ommBitCount ommArrayDataSize (key # rest) st =
     (let vmIndex = unat (snd key)
      in if vmIndex \<ge> length (st_vmWorkItems st) then Inl OutOfBounds
         else
           let vm = st_vmWorkItems st ! vmIndex
           in if vmSpecialIndex vm = kNoSpecialIndex then
                (if unat (st_ommArrayDataOffset st) \<ge> ommArrayDataSize then Inl (Status FAILURE)
                 else if unat (st_vmDescOffset st) \<ge> length (st_ommDescArray st) then Inl OutOfBounds
                 else
                   let descs = (st_ommDescArray st)[unat (st_vmDescOffset st) :=
                                 \<lparr> desc_subdivisionLevel = of_nat (subdivisionLevel vm),
                                   desc_format = OMMFormat_u16 (vmFormat vm),
                                   desc_offset = st_ommArrayDataOffset st \<rparr>];
                       vm' = vm \<lparr> vmDescOffset := st_vmDescOffset st \<rparr>;
                       numMicroTriangles = GetNumMicroTriangles (subdivisionLevel vm)
                   in case Serialize_states (vmFormat vm = OC1_2_State) (vmStates vm)
                             (unat (st_ommArrayDataOffset st)) [0 ..< numMicroTriangles]
                             (st_ommArrayData st) of
                        Inl e \<Rightarrow> Inl e
                      | Inr bytes \<Rightarrow>
                          Serialize_loop ommBitCount ommArrayDataSize rest
                            \<lparr> st_ommArrayData = bytes,
                              st_ommDescArray = descs,
                              st_ommArrayDataOffset = st_ommArrayDataOffset st +
                                max (drop_bit 3 (of_nat numMicroTriangles * of_nat ommBitCount)) 1,
                              st_vmDescOffset = st_vmDescOffset st + 1,
                              st_vmWorkItems = (st_vmWorkItems st)[vmIndex := vm'] \<rparr>)
              else Serialize_loop ommBitCount ommArrayDataSize rest st)"

text \<open>The records pushed to a result histogram, format by format and level by level.\<close>

definition Serialize_histogram :: "VisibilityMapUsageHistogram \<Rightarrow> OpacityMicromapUsageCount list" where
  "Serialize_histogram h =
     concat (map (\<lambda>vmFormat.
       concat (map (\<lambda>subDivLvl.
         let vmCount = GetOmmCount h vmFormat subDivLvl
         in if vmCount \<noteq> 0 then
              [\<lparr> usage_count = vmCount,
                 usage_subdivisionLevel = of_nat subDivLvl,
                 usage_format = OMMFormat_u16 vmFormat \<rparr>]
            else [])
         [0 ..< kMaxNumSubdivLevels]))
       [OC1_2_State, OC1_4_State])"

text \<open>The loops that fill the index buffer.\<close>

fun Serialize_setIndices :: "32 word \<Rightarrow> nat list \<Rightarrow> 32 word list \<Rightarrow> error + 32 word list" where
  "Serialize_setIndices v [] buf = Inr buf"
| "Serialize_setIndices v (primitiveIndex # rest) buf =
     (if primitiveIndex < length buf then Serialize_setIndices v rest (buf[primitiveIndex := v])
      else Inl OutOfBounds)"

fun Serialize_indexBuffer :: "'tri OmmWorkItem list \<Rightarrow> 32 word list \<Rightarrow> error + 32 word list" where
  "Serialize_indexBuffer [] buf = Inr buf"
| "Serialize_indexBuffer (vm # rest) buf =
     (case Serialize_setIndices
             (if vmSpecialIndex vm \<noteq> kNoSpecialIndex then vmSpecialIndex vm else vmDescOffset vm)
             (primitiveIndices vm) buf of
        Inl e \<Rightarrow> Inl e
      | Inr buf' \<Rightarrow> Serialize_indexBuffer rest buf')"

text \<open>
  The first block of \<open>Serialize\<close>: sizes, the 4 GB check, and the descriptors and array
  data written in sort order.
\<close>

definition Serialize_arrays ::
  "BakeInputDesc \<Rightarrow> 'tri OmmWorkItem list \<Rightarrow> VisibilityMapUsageHistogram \<Rightarrow>
   (64 word \<times> 32 word) list \<Rightarrow> error + 'tri SerializeState" where
  "Serialize_arrays desc vmWorkItems arrayHistogram sortKeys =
     (let ommBitCount = GetBitCount (ommFormat desc);
          sizes = Serialize_sizes desc arrayHistogram;
          ommDescArrayCount = fst sizes;
          ommArrayDataSize = snd sizes
      in if ommArrayDataSize > 0xFFFFFFFF then Inl (Status FAILURE)
         else if ommDescArrayCount \<noteq> 0 then
           Serialize_loop ommBitCount ommArrayDataSize sortKeys
             \<lparr> st_ommArrayData = replicate ommArrayDataSize 0,
               st_ommDescArray = replicate (unat ommDescArrayCount)
                  \<lparr> desc_subdivisionLevel = 0, desc_format = 0, desc_offset = 0 \<rparr>,
               st_ommArrayDataOffset = 0,
               st_vmDescOffset = 0,
               st_vmWorkItems = vmWorkItems \<rparr>
         else
           Inr \<lparr> st_ommArrayData = [], st_ommDescArray = [],
                 st_ommArrayDataOffset = 0, st_vmDescOffset = 0,
                 st_vmWorkItems = vmWorkItems \<rparr>)"

text \<open>The last block: the index buffer is narrowed to 16 bits if possible and allowed.\<close>

definition Serialize_compress :: "BakeInputDesc \<Rightarrow> 32 word list \<Rightarrow> IndexBuffer" where
  "Serialize_compress desc buf =
     (let triangleCount = unat (indexCount desc) div 3;
          force32bit = (bakeFlags desc AND Force32BitIndices = Force32BitIndices);
          canCompressTo16Bit = (triangleCount \<le> 32767)
      in if canCompressTo16Bit \<and> \<not> force32bit then I16_UINT (map ucast buf) else I32_UINT buf)"

text \<open>
  \<open>Serialize\<close> returns the result together with the work items, whose \<open>vmDescOffset\<close>
  it has set.
\<close>

definition Serialize ::
  "BakeInputDesc \<Rightarrow> Options \<Rightarrow> 'tri OmmWorkItem list \<Rightarrow> VisibilityMapUsageHistogram \<Rightarrow>
   VisibilityMapUsageHistogram \<Rightarrow> (64 word \<times> 32 word) list \<Rightarrow>
   error + (BakeResultImpl \<times> 'tri OmmWorkItem list)" where
  "Serialize desc options vmWorkItems arrayHistogram indexHistogram sortKeys =
     (case Serialize_arrays desc vmWorkItems arrayHistogram sortKeys of
        Inl e \<Rightarrow> Inl e
      | Inr st \<Rightarrow>
          (case Serialize_indexBuffer (st_vmWorkItems st)
                  (replicate (unat (indexCount desc) div 3) FullyUnknownOpaque) of
             Inl e \<Rightarrow> Inl e
           | Inr buf \<Rightarrow>
               Inr (\<lparr> ommArrayData = st_ommArrayData st,
                      ommDescArray = st_ommDescArray st,
                      ommIndexBuffer = Serialize_compress desc buf,
                      ommArrayHistogram = Serialize_histogram arrayHistogram,
                      ommIndexHistogram = Serialize_histogram indexHistogram \<rparr>,
                    st_vmWorkItems st)))"

subsection \<open>DeduplicateSimilarLSH\<close>

text \<open>
  What the pass takes from libraries and from floating point is a parameter:
  \<^item> \<open>lsh_mt n\<close> is the \<open>n\<close>-th value drawn from \<open>std::mt19937 mt(42)\<close>;
  \<^item> \<open>lsh_XXH64\<close> is \<open>XXH64\<close> (bytes and seed to digest);
  \<^item> \<open>lsh_L n\<close> is \<open>(uint32_t)glm::ceil(std::pow((float)n, 1.f / c))\<close>;
  \<^item> \<open>lsh_k n d\<close> is \<open>uint32_t(glm::ceil((std::log((float)n) * d) / (c * r)))\<close>.
\<close>

record LSHLibrary =
  lsh_mt :: "nat \<Rightarrow> 32 word"
  lsh_XXH64 :: "8 word list \<Rightarrow> 64 word \<Rightarrow> 64 word"
  lsh_L :: "nat \<Rightarrow> nat"
  lsh_k :: "nat \<Rightarrow> nat \<Rightarrow> nat"

text \<open>The float constant \<open>0.15f\<close>; its product with a power of four is exact.\<close>

definition kLSHRadiusFactor :: rat where
  "kLSHRadiusFactor = 5033165 / 33554432"

text \<open>The bytes of a \<open>uint32_t\<close> in memory (little-endian), as \<open>XXH64\<close> reads them.\<close>

definition u32_bytes :: "32 word \<Rightarrow> 8 word list" where
  "u32_bytes w = [ucast w, ucast (drop_bit 8 w), ucast (drop_bit 16 w), ucast (drop_bit 24 w)]"

record HashTable =
  bitIndices :: "nat list"
  workItemHashes :: "64 word list"
  layerHashToWorkItem :: "64 word \<rightharpoonup> nat list"

text \<open>
  Setting up hash table number \<open>t\<close> of a level: \<open>k\<close> random bit indices, drawn after
  the \<open>t * k\<close> draws of the tables before it.
\<close>

definition HashTable_init :: "LSHLibrary \<Rightarrow> nat \<Rightarrow> nat \<Rightarrow> nat \<Rightarrow> nat \<Rightarrow> nat \<Rightarrow> HashTable" where
  "HashTable_init lib mtPos numWorkItems numMicroTriangles k t =
     \<lparr> bitIndices = map (\<lambda>kIt. unat (lsh_mt lib (mtPos + t * k + kIt) AND
                                      (of_nat numMicroTriangles - 1)))
                          [0 ..< k],
       workItemHashes = replicate numWorkItems 0,
       layerHashToWorkItem = Map.empty \<rparr>"

text \<open>Hashing one work item into one table.\<close>

definition HashTable_add :: "LSHLibrary \<Rightarrow> 'tri OmmWorkItem list \<Rightarrow> nat \<Rightarrow> HashTable \<Rightarrow> HashTable" where
  "HashTable_add lib vmWorkItems workItemIndex hashTable =
     (let workItem = vmWorkItems ! workItemIndex;
          bitSamples = map (\<lambda>randomBitIndex.
                              OpacityState_u32 (Get3State (vmStates workItem) randomBitIndex))
                           (bitIndices hashTable);
          hash = lsh_XXH64 lib (concat (map u32_bytes bitSamples)) 42
      in hashTable
           \<lparr> workItemHashes := (workItemHashes hashTable)[workItemIndex := hash],
             layerHashToWorkItem := (layerHashToWorkItem hashTable)
               (hash \<mapsto> (case layerHashToWorkItem hashTable hash of
                            None \<Rightarrow> [workItemIndex]
                          | Some bucket \<Rightarrow> bucket @ [workItemIndex])) \<rparr>)"

text \<open>
  Collecting the potential matches of a work item from one bucket. The \<open>std::set\<close> is
  a sorted list without duplicates; the third branch is the \<open>break\<close>.
\<close>

fun LSH_gather :: "'tri OmmWorkItem list \<Rightarrow> nat \<Rightarrow> nat \<Rightarrow> nat list \<Rightarrow> nat list \<Rightarrow> nat list" where
  "LSH_gather vmWorkItems L workItemIndex [] potentialMatches = potentialMatches"
| "LSH_gather vmWorkItems L workItemIndex (potentialWorkItemIndex # rest) potentialMatches =
     (if potentialWorkItemIndex = workItemIndex then
        LSH_gather vmWorkItems L workItemIndex rest potentialMatches
      else if HasSpecialIndex (vmWorkItems ! potentialWorkItemIndex) then
        LSH_gather vmWorkItems L workItemIndex rest potentialMatches
      else if length potentialMatches > 3 * L then potentialMatches
      else
        LSH_gather vmWorkItems L workItemIndex rest
          (if potentialWorkItemIndex \<in> set potentialMatches then potentialMatches
           else insort potentialWorkItemIndex potentialMatches))"

text \<open>The merge pass for one work item of the batch.\<close>

definition LSH_merge_step ::
  "HashTable list \<Rightarrow> nat \<Rightarrow> rat \<Rightarrow> nat \<Rightarrow> 'tri OmmWorkItem list \<Rightarrow> 'tri OmmWorkItem list" where
  "LSH_merge_step hashTables L r workItemIndex vmWorkItems =
     (let workItem = vmWorkItems ! workItemIndex
      in if HasSpecialIndex workItem then vmWorkItems
         else
           let potentialMatches =
                 fold (\<lambda>hashTable potentialMatches.
                         let hash = workItemHashes hashTable ! workItemIndex
                         in case layerHashToWorkItem hashTable hash of
                              None \<Rightarrow> potentialMatches
                            | Some bucket \<Rightarrow>
                                LSH_gather vmWorkItems L workItemIndex bucket potentialMatches)
                      hashTables [];
               nearestIndex =
                 snd (fold (\<lambda>potentialMatch st.
                              let dist = HammingDistance3State workItem (vmWorkItems ! potentialMatch)
                              in if dist < r \<and> dist < fst st then (dist, int potentialMatch) else st)
                           potentialMatches (FLT_MAX, - 1))
           in if nearestIndex \<ge> 0 then
                let merged = MergeWorkItems workItem (vmWorkItems ! nat nearestIndex)
                in vmWorkItems[workItemIndex := fst merged, nat nearestIndex := snd merged]
              else vmWorkItems)"

text \<open>
  One subdivision level of one attempt. The state is the number of values drawn from
  the generator so far and the work items.
\<close>

definition LSH_level ::
  "LSHLibrary \<Rightarrow> nat \<Rightarrow> nat \<times> 'tri OmmWorkItem list \<Rightarrow> nat \<times> 'tri OmmWorkItem list" where
  "LSH_level lib level st =
     (let mtPos = fst st;
          vmWorkItems = snd st;
          batchWorkItems =
            filter (\<lambda>i. vmSpecialIndex (vmWorkItems ! i) = kNoSpecialIndex \<and>
                         vmFormat (vmWorkItems ! i) = OC1_4_State \<and>
                         subdivisionLevel (vmWorkItems ! i) = level)
                   [0 ..< length vmWorkItems]
      in if batchWorkItems = [] then st
         else
           let numMicroTriangles = GetNumMicroTriangles level;
               n = length batchWorkItems;
               d = numMicroTriangles;
               r = kLSHRadiusFactor * of_nat d;
               L = lsh_L lib n
           in if L = 0 then st
              else
                let k = lsh_k lib n d
                in if k = 0 then st
                   else
                     let hashTables =
                           map (\<lambda>t. fold (HashTable_add lib vmWorkItems) batchWorkItems
                                       (HashTable_init lib mtPos (length vmWorkItems)
                                          numMicroTriangles k t))
                               [0 ..< L]
                     in (mtPos + L * k,
                         fold (LSH_merge_step hashTables L r) batchWorkItems vmWorkItems))"

definition DeduplicateSimilarLSH ::
  "LSHLibrary \<Rightarrow> Options \<Rightarrow> 'tri OmmWorkItem list \<Rightarrow> nat \<Rightarrow> 'tri OmmWorkItem list" where
  "DeduplicateSimilarLSH lib options vmWorkItems iterations =
     (if \<not> enableNearDuplicateDetection options \<or> enableNearDuplicateDetectionBruteForce options
      then vmWorkItems
      else snd (fold (\<lambda>attempts st. fold (LSH_level lib) [1 ..< kMaxSubdivLevel + 1] st)
                     [0 ..< iterations] (0, vmWorkItems)))"

subsection \<open>BakeImpl, from the resampled work items on\<close>

text \<open>
  The stages of \<open>BakeImpl\<close> that follow \<open>Resample\<close>, in the order of the source. The work
  items they start from are those of \<open>SetupWorkItems\<close> with the states that \<open>Resample\<close>
  has classified.
\<close>

definition BakeImpl_resampled ::
  "LSHLibrary \<Rightarrow> ('tri \<Rightarrow> 64 word) \<Rightarrow> BakeInputDesc \<Rightarrow> 'tri OmmWorkItem list \<Rightarrow>
   error + (BakeResultImpl \<times> 'tri OmmWorkItem list)" where
  "BakeImpl_resampled lib mCodeOf desc vmWorkItems =
     (let options = Options_new (bakeFlags desc);
          ws1 = PromoteToSpecialIndices desc options vmWorkItems;
          ws2 = DeduplicateExact (lsh_XXH64 lib) options ws1;
          ws3 = DeduplicateSimilarLSH lib options ws2 3;
          ws4 = DeduplicateSimilarBruteForce options ws3;
          ws5 = PromoteToSpecialIndices desc options ws4
      in case CreateUsageHistograms ws5 Histogram_new Histogram_new of
           Inl e \<Rightarrow> Inl e
         | Inr hs \<Rightarrow>
             Serialize desc options ws5 (fst hs) (snd hs) (MicromapSpatialSort mCodeOf ws5))"

subsection \<open>Reading the result\<close>

text \<open>
  Modelled from the spec: how a consumer reads entry \<open>i\<close> of \<open>ommIndexBuffer\<close> (the
  helper \<open>GetOmmIndexForTriangleIndex\<close> that the debug code calls is declared in a
  missing header): a signed value, 16 or 32 bits wide according to \<open>ommIndexFormat\<close>;
  the buffer has one entry per triangle.
\<close>

fun GetOmmIndexForTriangleIndex :: "IndexBuffer \<Rightarrow> nat \<Rightarrow> int" where
  "GetOmmIndexForTriangleIndex (I16_UINT buf) i = sint (buf ! i)"
| "GetOmmIndexForTriangleIndex (I32_UINT buf) i = sint (buf ! i)"

fun ommIndexCount :: "IndexBuffer \<Rightarrow> nat" where
  "ommIndexCount (I16_UINT buf) = length buf"
| "ommIndexCount (I32_UINT buf) = length buf"

subsection \<open>Example inputs\<close>

text \<open>A work item as \<open>SetupWorkItems\<close> and \<open>Resample\<close> leave it, with the given states.\<close>

definition resampledItem ::
  "OMMFormat \<Rightarrow> nat \<Rightarrow> nat list \<Rightarrow> 'tri \<Rightarrow> OpacityState list \<Rightarrow> 'tri OmmWorkItem" where
  "resampledItem fmt level prims tri states =
     (OmmWorkItem_new fmt level 0 tri)
       \<lparr> primitiveIndices := prims,
         vmStates := fold (\<lambda>i v. SetState v i (states ! i)) [0 ..< length states]
                       (OmmArrayDataVector_new level) \<rparr>"

text \<open>Stand-ins for the library parameters, for evaluating on examples.\<close>

definition exampleLib :: LSHLibrary where
  "exampleLib =
     \<lparr> lsh_mt = (\<lambda>n. of_nat n),
       lsh_XXH64 = (\<lambda>bytes seed. fold (\<lambda>b h. h * 31 + ucast b) bytes seed),
       lsh_L = (\<lambda>n. 1),
       lsh_k = (\<lambda>n d. 2) \<rparr>"

text \<open>Inputs for the examples that the properties below are evaluated on.\<close>

definition exampleMorton :: "unit \<Rightarrow> 64 word" where
  "exampleMorton t = 0"

definition exampleDesc :: BakeInputDesc where
  "exampleDesc = \<lparr> indexCount = 3, bakeFlags = 0, ommFormat = OC1_4_State, rejectionThreshold = 0 \<rparr>"

definition opaqueItem :: "unit OmmWorkItem" where
  "opaqueItem = resampledItem OC1_4_State 2 [0] () (replicate 16 Opaque)"

definition nearDuplicateA :: "unit OmmWorkItem" where
  "nearDuplicateA = resampledItem OC1_4_State 1 [0] () [Opaque, Transparent, Opaque, Opaque]"

definition nearDuplicateB :: "unit OmmWorkItem" where
  "nearDuplicateB = resampledItem OC1_4_State 1 [1] () [Opaque, Transparent, Opaque, Opaque]"

definition bruteForceFlags :: "32 word" where
  "bruteForceFlags = DisableDuplicateDetection OR EnableNearDuplicateDetection OR
                     EnableNearDuplicateDetectionBruteForce"

definition twoStateItem :: "unit OmmWorkItem" where
  "twoStateItem = resampledItem OC1_2_State 1 [0] () [Opaque, Transparent, Opaque, Opaque]"

text \<open>The usage histogram of a single non-special OC1\_2\_State work item at level 1.\<close>

definition exampleHistogram :: VisibilityMapUsageHistogram where
  "exampleHistogram = (\<lambda>format subDivLvl. if format = OC1_2_State \<and> subDivLvl = 1 then 1 else 0)"

subsection \<open>Vocabulary of the proofs\<close>

text \<open>The value that \<open>Serialize\<close> writes to the index buffer for the primitives of a work item.\<close>

definition indexValue :: "'tri OmmWorkItem \<Rightarrow> 32 word" where
  "indexValue vm = (if vmSpecialIndex vm \<noteq> kNoSpecialIndex then vmSpecialIndex vm else vmDescOffset vm)"

text \<open>A work item stripped of its descriptor offset, the one field the serializer sets.\<close>

definition eraseOffset :: "'tri OmmWorkItem \<Rightarrow> 'tri OmmWorkItem" where
  "eraseOffset w = w \<lparr> vmDescOffset := 0 \<rparr>"

text \<open>
  How a pass before the serializer may change a work item: the triangle, the descriptor
  offset, the level and the format stay, and the special index stays or becomes one of
  the four sentinels.
\<close>

definition pass_rel :: "'tri OmmWorkItem \<Rightarrow> 'tri OmmWorkItem \<Rightarrow> bool" where
  "pass_rel w w' =
     (uvTri w' = uvTri w \<and> vmDescOffset w' = vmDescOffset w \<and>
      subdivisionLevel w' = subdivisionLevel w \<and> vmFormat w' = vmFormat w \<and>
      (vmSpecialIndex w' = vmSpecialIndex w \<or> vmSpecialIndex w' \<in> {- 1, - 2, - 3, - 4}))"

text \<open>
  What the descriptor loop of the serializer does to the descriptor offset of work item
  \<open>i\<close>: it sets it to a position of the descriptor array, or it keeps it, and then
  the work item is special or no sort key points to it.
\<close>

definition offset_set ::
  "'tri SerializeState \<Rightarrow> (64 word \<times> 32 word) list \<Rightarrow> 'tri SerializeState \<Rightarrow> nat \<Rightarrow> bool" where
  "offset_set st keys st' i =
     (unat (vmDescOffset (st_vmWorkItems st' ! i)) < length (st_ommDescArray st) \<and>
      unat (vmDescOffset (st_vmWorkItems st' ! i)) < unat (st_vmDescOffset st) + length keys)"

text \<open>The other case.\<close>

definition offset_kept ::
  "'tri SerializeState \<Rightarrow> (64 word \<times> 32 word) list \<Rightarrow> 'tri SerializeState \<Rightarrow> nat \<Rightarrow> bool" where
  "offset_kept st keys st' i =
     (vmDescOffset (st_vmWorkItems st' ! i) = vmDescOffset (st_vmWorkItems st ! i) \<and>
      (vmSpecialIndex (st_vmWorkItems st ! i) \<noteq> kNoSpecialIndex \<or>
       i \<notin> (\<lambda>key. unat (snd key)) ` set keys))"

text \<open>The values an index-buffer entry may take, for a descriptor count and a triangle count.\<close>

definition entry_ok :: "nat \<Rightarrow> nat \<Rightarrow> 32 word \<Rightarrow> bool" where
  "entry_ok descCount triangleCount v =
     (sint v \<in> {- 1, - 2, - 3, - 4} \<or>
      (0 \<le> sint v \<and> sint v < int descCount \<and> sint v < int triangleCount))"

text \<open>Two non-uniform work items, at levels 1 and 2, and a bake input of two triangles.\<close>

definition levelOneItem :: "unit OmmWorkItem" where
  "levelOneItem = resampledItem OC1_4_State 1 [0] () [Opaque, Transparent, Opaque, Opaque]"

definition levelTwoItem :: "unit OmmWorkItem" where
  "levelTwoItem = resampledItem OC1_4_State 2 [1] ()
     [Opaque, Transparent, UnknownOpaque, UnknownTransparent, Opaque, Opaque, Opaque, Opaque,
      Transparent, Transparent, Transparent, Transparent, Opaque, Opaque, Opaque, Opaque]"

definition twoTriangleDesc :: BakeInputDesc where
  "twoTriangleDesc = \<lparr> indexCount = 6, bakeFlags = 0, ommFormat = OC1_4_State, rejectionThreshold = 0 \<rparr>"

text \<open>The usage histogram of these two work items.\<close>

definition twoLevelHistogram :: VisibilityMapUsageHistogram where
  "twoLevelHistogram =
     (\<lambda>format subDivLvl. if format = OC1_4_State \<and> (subDivLvl = 1 \<or> subDivLvl = 2) then 1 else 0)"

text \<open>The sort keys at which the descriptor loop emits a descriptor.\<close>

definition emitted :: "'tri OmmWorkItem list \<Rightarrow> (64 word \<times> 32 word) list \<Rightarrow> (64 word \<times> 32 word) list" where
  "emitted ws keys = filter (\<lambda>key. vmSpecialIndex (ws ! unat (snd key)) = kNoSpecialIndex) keys"

text \<open>The level that the descriptor loop writes for a sort key.\<close>

definition keyLevel :: "'tri OmmWorkItem list \<Rightarrow> 64 word \<times> 32 word \<Rightarrow> 16 word" where
  "keyLevel ws key = of_nat (subdivisionLevel (ws ! unat (snd key)))"

text \<open>What the sort compares: the key, then the index, both unsigned.\<close>

definition keyOrder :: "64 word \<times> 32 word \<Rightarrow> nat \<times> nat" where
  "keyOrder p = (unat (fst p), unat (snd p))"

section \<open>Properties\<close>

text \<open>The definitions that evaluating an example work item unfolds.\<close>

lemmas ex_defs = resampledItem_def OmmWorkItem_new_def OmmArrayDataVector_new_def
  GetNumMicroTriangles_def SetState_def GetState_def kNoSpecialIndex_def

lemmas flag_defs = EnableInternalThreads_def DisableSpecialIndices_def Force32BitIndices_def
  DisableDuplicateDetection_def EnableNearDuplicateDetection_def EnableWorkloadValidation_def
  EnableAABBTesting_def DisableRemovePoorQualityOMM_def DisableLevelLineIntersection_def
  EnableNearDuplicateDetectionBruteForce_def

subsection \<open>MergeWorkItems\<close>









subsection \<open>GetTexCoord, Wrap mode\<close>

text \<open>
  C8: for the Wrap addressing mode, \<open>GetTexCoord(coord, size)\<close> should be
  \<open>coord mod size\<close> componentwise for every integer coordinate, negative ones included,
  and every positive size, powers of two or not. The code takes the remainder of the
  coordinate read as an unsigned 32-bit value: at \<open>coord = (-1, -1)\<close> and
  \<open>size = (3, 3)\<close> it returns \<open>(0, 0)\<close>, while \<open>-1 mod 3 = 2\<close>.
\<close>

theorem GetTexCoord_Wrap_negative_coordinate:
  "GetTexCoord_Wrap (- 1, - 1) (3, 3) = (0, 0) \<and>
   sint (- 1 :: 32 word) mod sint (3 :: 32 word) = 2"
  by (simp add: GetTexCoord_Wrap_def)

subsection \<open>ValidateWorkloadSize\<close>

lemma ValidateWorkloadSize_disabled:
  "\<not> enableWorkloadValidation options \<Longrightarrow> ValidateWorkloadSize aabbOf options ws = SUCCESS"
  by (simp add: ValidateWorkloadSize_def)

text \<open>
  C7: with EnableWorkloadValidation set, the bake should return WORKLOAD\_TOO\_BIG exactly
  when the sum over the work items of the texel areas exceeds \<open>2^27\<close>. The code multiplies
  the two extents as 32-bit ints before widening: one work item whose extent is
  65536 by 65536 texels has the area \<open>2^32\<close>, the product wraps to 0, and the guard
  returns SUCCESS.
\<close>

theorem ValidateWorkloadSize_product_overflow:
  "enableWorkloadValidation (Options_new EnableWorkloadValidation) \<and>
   ValidateWorkloadSize id (Options_new EnableWorkloadValidation)
     [resampledItem OC1_4_State 0 [0] (65536, 65536) [Opaque]] = SUCCESS \<and>
   sint (65536 :: 32 word) * sint (65536 :: 32 word) > 2 ^ 27"
  by (simp add: ValidateWorkloadSize_def Options_new_def flag_defs ex_defs kMaxWorkloadSize_def)

subsection \<open>PromoteToSpecialIndices and the rejection threshold\<close>

lemma PromoteToSpecialIndices_flag_irrelevant:
  "PromoteToSpecialIndices desc (options \<lparr> disableRemovePoorQualityOMM := b \<rparr>) ws =
   PromoteToSpecialIndices desc options ws"
  by (simp add: PromoteToSpecialIndices_def PromoteToSpecialIndices_item_def)

text \<open>
  C4: with DisableRemovePoorQualityOMM set, no non-uniform work item should be forced to a
  special index because its fraction of known states is below the rejection threshold.
  The code reads the flag into the options and never consults it: with the flag set and
  a threshold of 1/2, a level-1 work item with one Opaque and three UnknownOpaque states
  (known fraction 1/4) gets the special index \<open>-3\<close>, that of UnknownTransparent.
\<close>

theorem PromoteToSpecialIndices_ignores_DisableRemovePoorQualityOMM:
  "disableRemovePoorQualityOMM (Options_new DisableRemovePoorQualityOMM) \<and>
   \<not> disableSpecialIndices (Options_new DisableRemovePoorQualityOMM) \<and>
   map vmSpecialIndex
     (PromoteToSpecialIndices
        \<lparr> indexCount = 3, bakeFlags = DisableRemovePoorQualityOMM,
          ommFormat = OC1_4_State, rejectionThreshold = 1 / 2 \<rparr>
        (Options_new DisableRemovePoorQualityOMM)
        [resampledItem OC1_4_State 1 [0] () [Opaque, UnknownOpaque, UnknownOpaque, UnknownOpaque]])
   = [- 3]"
  by (simp add: PromoteToSpecialIndices_def PromoteToSpecialIndices_item_def Options_new_def
        flag_defs ex_defs upt_rec Let_def)

subsection \<open>The near-duplicate passes and their flags\<close>

text \<open>
  C3, as stated, fails: with DisableDuplicateDetection, EnableNearDuplicateDetection and
  EnableNearDuplicateDetectionBruteForce all set, \<open>DeduplicateSimilarBruteForce\<close> merges
  two equal work items: the primitive of the second moves to the first and the second
  gets the special index \<open>-1\<close>.
\<close>

theorem DeduplicateSimilarBruteForce_merges_although_disabled:
  "disableDuplicateDetection (Options_new bruteForceFlags) \<and>
   map primitiveIndices
     (DeduplicateSimilarBruteForce (Options_new bruteForceFlags) [nearDuplicateA, nearDuplicateB])
     = [[0, 1], []] \<and>
   map vmSpecialIndex
     (DeduplicateSimilarBruteForce (Options_new bruteForceFlags) [nearDuplicateA, nearDuplicateB])
     = [0, - 1] \<and>
   map primitiveIndices [nearDuplicateA, nearDuplicateB] = [[0], [1]] \<and>
   map vmSpecialIndex [nearDuplicateA, nearDuplicateB] = [0, 0]"
  by (simp add: DeduplicateSimilarBruteForce_def BruteForce_outer_step_def BruteForce_inner_step_def
       NormalizedHammingDistance3State_def HammingDistance3State_def MergeWorkItems_def
       MergeWorkItems_step_def Get3State_def kMaxComparsions_def kMergeThreshold_def FLT_MAX_def
       Options_new_def flag_defs ex_defs upt_rec Let_def nearDuplicateA_def nearDuplicateB_def
       bruteForceFlags_def)

text \<open>
  C3, amended: the near-duplicate passes are switched by their own flags only. When
  EnableNearDuplicateDetection is clear, \<open>DeduplicateSimilarLSH\<close> and
  \<open>DeduplicateSimilarBruteForce\<close> leave every work item as it is;
  \<open>DeduplicateSimilarLSH\<close> also does when EnableNearDuplicateDetectionBruteForce is set,
  and \<open>DeduplicateSimilarBruteForce\<close> when it is clear. DisableDuplicateDetection makes
  \<open>DeduplicateExact\<close> leave every work item as it is.
\<close>

theorem near_duplicate_gating:
  "(\<not> enableNearDuplicateDetection options \<longrightarrow>
      DeduplicateSimilarLSH lib options ws iterations = ws \<and>
      DeduplicateSimilarBruteForce options ws = ws) \<and>
   (enableNearDuplicateDetectionBruteForce options \<longrightarrow>
      DeduplicateSimilarLSH lib options ws iterations = ws) \<and>
   (\<not> enableNearDuplicateDetectionBruteForce options \<longrightarrow>
      DeduplicateSimilarBruteForce options ws = ws) \<and>
   (disableDuplicateDetection options \<longrightarrow> DeduplicateExact XXH64 options ws = ws)"
  by (simp add: DeduplicateSimilarLSH_def DeduplicateSimilarBruteForce_def DeduplicateExact_def)

theorem near_duplicate_gating_witness:
  "DeduplicateSimilarLSH exampleLib (Options_new DisableDuplicateDetection)
      [nearDuplicateA, nearDuplicateB] 3 = [nearDuplicateA, nearDuplicateB] \<and>
   DeduplicateSimilarBruteForce (Options_new DisableDuplicateDetection)
      [nearDuplicateA, nearDuplicateB] = [nearDuplicateA, nearDuplicateB] \<and>
   DeduplicateExact (lsh_XXH64 exampleLib) (Options_new DisableDuplicateDetection)
      [nearDuplicateA, nearDuplicateB] = [nearDuplicateA, nearDuplicateB] \<and>
   DeduplicateSimilarLSH exampleLib
      (Options_new (EnableNearDuplicateDetection OR EnableNearDuplicateDetectionBruteForce))
      [nearDuplicateA, nearDuplicateB] 3 = [nearDuplicateA, nearDuplicateB]"
proof -
  have a: "\<not> enableNearDuplicateDetection (Options_new DisableDuplicateDetection)"
    and b: "\<not> enableNearDuplicateDetectionBruteForce (Options_new DisableDuplicateDetection)"
    and c: "disableDuplicateDetection (Options_new DisableDuplicateDetection)"
    and d: "enableNearDuplicateDetectionBruteForce
             (Options_new (EnableNearDuplicateDetection OR EnableNearDuplicateDetectionBruteForce))"
    by (simp_all add: Options_new_def flag_defs)
  show ?thesis
    using a b c d
      near_duplicate_gating [of "Options_new DisableDuplicateDetection" exampleLib
         "[nearDuplicateA, nearDuplicateB]" 3 "lsh_XXH64 exampleLib"]
      near_duplicate_gating [of
         "Options_new (EnableNearDuplicateDetection OR EnableNearDuplicateDetectionBruteForce)"
         exampleLib "[nearDuplicateA, nearDuplicateB]" 3 "lsh_XXH64 exampleLib"]
    by simp
qed

subsection \<open>Word lemmas\<close>

lemma sint_narrow:
  fixes x :: "32 word"
  assumes "- (2 ^ 15) \<le> sint x" "sint x < 2 ^ 15"
  shows "sint (ucast x :: 16 word) = sint x"
proof -
  have "sint (ucast x :: 16 word) = signed_take_bit 15 (uint x)"
    by (simp add: signed_ucast_eq)
  also have "\<dots> = signed_take_bit 15 (signed_take_bit 31 (uint x))"
    by simp
  also have "\<dots> = signed_take_bit 15 (sint x)"
    by (simp add: sint_uint)
  also have "\<dots> = sint x"
    using assms by (simp add: signed_take_bit_int_eq_self)
  finally show ?thesis .
qed

lemma sint_small_uint:
  fixes x :: "32 word"
  assumes "uint x < 2 ^ 31"
  shows "sint x = uint x"
proof -
  have "sint x = signed_take_bit 31 (uint x)" by (simp add: sint_uint)
  also have "\<dots> = uint x"
  proof (rule signed_take_bit_int_eq_self)
    have "(0::int) \<le> uint x" by simp
    moreover have "- (2 ^ 31) \<le> (0::int)" by simp
    ultimately show "- (2 ^ 31) \<le> uint x" by (rule order_trans [rotated])
    show "uint x < 2 ^ 31" by (rule assms)
  qed
  finally show ?thesis .
qed

lemma sint_small_unat:
  fixes x :: "32 word"
  assumes "unat x < 2147483648"
  shows "sint x = int (unat x)"
proof -
  have "int (unat x) < 2147483648" using assms by linarith
  then have "uint x < 2 ^ 31" by (simp only: uint_nat) simp
  then have "sint x = uint x" by (rule sint_small_uint)
  then show ?thesis by (simp only: uint_nat)
qed

subsection \<open>Uniform work items and the index buffer\<close>

lemma fold_conj: "fold (\<lambda>u a. a \<and> P u) xs b = (b \<and> (\<forall>u \<in> set xs. P u))"
  by (induction xs arbitrary: b) auto

lemma GetNumMicroTriangles_pos: "0 < GetNumMicroTriangles l"
  by (simp add: GetNumMicroTriangles_def)

lemma PromoteToSpecialIndices_item_uniform:
  assumes "\<not> disableSpecialIndices options"
    and "\<forall>i < GetNumMicroTriangles (subdivisionLevel w). GetState (vmStates w) i = s"
  shows "PromoteToSpecialIndices_item desc options w =
           w \<lparr> vmSpecialIndex := - OpacityState_u32 s - 1 \<rparr>"
proof -
  have s0: "GetState (vmStates w) 0 = s"
    using assms(2) GetNumMicroTriangles_pos by blast
  have all: "fold (\<lambda>uTriIt allEqual. allEqual \<and> s = GetState (vmStates w) uTriIt)
               [1 ..< GetNumMicroTriangles (subdivisionLevel w)] True"
    using assms(2) by (simp add: fold_conj)
  show ?thesis
    using assms(1) all by (simp add: PromoteToSpecialIndices_item_def Let_def s0)
qed

lemma Serialize_setIndices_result:
  "Serialize_setIndices v ps buf = Inr buf' \<Longrightarrow>
   length buf' = length buf \<and> (\<forall>p \<in> set ps. p < length buf \<and> buf' ! p = v) \<and>
   (\<forall>q. q \<notin> set ps \<longrightarrow> buf' ! q = buf ! q)"
proof (induction ps arbitrary: buf)
  case Nil
  then show ?case by simp
next
  case (Cons p ps)
  from Cons.prems have lt: "p < length buf"
    and rest: "Serialize_setIndices v ps (buf[p := v]) = Inr buf'"
    by (auto split: if_splits)
  from Cons.IH [OF rest] have
    len: "length buf' = length buf"
    and hit: "\<forall>q \<in> set ps. q < length buf \<and> buf' ! q = v"
    and miss: "\<forall>q. q \<notin> set ps \<longrightarrow> buf' ! q = buf[p := v] ! q"
    by simp_all
  have "buf' ! p = v"
  proof (cases "p \<in> set ps")
    case True
    then show ?thesis using hit by blast
  next
    case False
    then show ?thesis using miss lt by simp
  qed
  moreover have "\<forall>q. q \<notin> set (p # ps) \<longrightarrow> buf' ! q = buf ! q"
    using miss by auto
  ultimately show ?case using len hit lt by auto
qed

lemma Serialize_indexBuffer_length:
  "Serialize_indexBuffer ws buf = Inr buf' \<Longrightarrow> length buf' = length buf"
proof (induction ws arbitrary: buf)
  case Nil
  then show ?case by simp
next
  case (Cons vm ws)
  then show ?case
    by (auto split: sum.splits dest!: Serialize_setIndices_result)
qed

lemma Serialize_indexBuffer_untouched:
  "Serialize_indexBuffer ws buf = Inr buf' \<Longrightarrow>
   q \<notin> set (concat (map primitiveIndices ws)) \<Longrightarrow> buf' ! q = buf ! q"
proof (induction ws arbitrary: buf)
  case Nil
  then show ?case by simp
next
  case (Cons vm ws)
  from Cons.prems(1) obtain buf1 where
    one: "Serialize_setIndices (indexValue vm) (primitiveIndices vm) buf = Inr buf1"
    and rest: "Serialize_indexBuffer ws buf1 = Inr buf'"
    by (auto simp: indexValue_def split: sum.splits)
  have "buf' ! q = buf1 ! q"
    using Cons.IH [OF rest] Cons.prems(2) by simp
  also have "buf1 ! q = buf ! q"
    using Serialize_setIndices_result [OF one] Cons.prems(2) by simp
  finally show ?case .
qed

lemma Serialize_indexBuffer_written:
  "Serialize_indexBuffer ws buf = Inr buf' \<Longrightarrow>
   distinct (concat (map primitiveIndices ws)) \<Longrightarrow>
   vm \<in> set ws \<Longrightarrow> p \<in> set (primitiveIndices vm) \<Longrightarrow>
   p < length buf \<and> buf' ! p = indexValue vm"
proof (induction ws arbitrary: buf)
  case Nil
  then show ?case by simp
next
  case (Cons w ws)
  from Cons.prems(1) obtain buf1 where
    one: "Serialize_setIndices (indexValue w) (primitiveIndices w) buf = Inr buf1"
    and rest: "Serialize_indexBuffer ws buf1 = Inr buf'"
    by (auto simp: indexValue_def split: sum.splits)
  note r1 = Serialize_setIndices_result [OF one]
  from Cons.prems(2) have d: "distinct (concat (map primitiveIndices ws))"
    and disj: "set (primitiveIndices w) \<inter> set (concat (map primitiveIndices ws)) = {}"
    by simp_all
  show ?case
  proof (cases "vm \<in> set ws")
    case True
    from Cons.IH [OF rest d True Cons.prems(4)] r1 show ?thesis by simp
  next
    case False
    with Cons.prems(3) have eq: "vm = w" by simp
    with Cons.prems(4) disj have "p \<notin> set (concat (map primitiveIndices ws))" by blast
    from Serialize_indexBuffer_untouched [OF rest this] r1 Cons.prems(4) eq
    show ?thesis by simp
  qed
qed

lemma eraseOffset_fields [simp]:
  "vmSpecialIndex (eraseOffset w) = vmSpecialIndex w"
  "primitiveIndices (eraseOffset w) = primitiveIndices w"
  "subdivisionLevel (eraseOffset w) = subdivisionLevel w"
  "vmFormat (eraseOffset w) = vmFormat w"
  "uvTri (eraseOffset w) = uvTri w"
  "eraseOffset (w \<lparr> vmDescOffset := c \<rparr>) = eraseOffset w"
  by (simp_all add: eraseOffset_def)

lemma eraseOffset_update:
  "i < length ws \<Longrightarrow>
   map eraseOffset (ws[i := (ws ! i) \<lparr> vmDescOffset := c \<rparr>]) = map eraseOffset ws"
  by (simp add: map_update list_update_same_conv)

lemma Serialize_loop_frame:
  "Serialize_loop b s keys st = Inr st' \<Longrightarrow>
   map eraseOffset (st_vmWorkItems st') = map eraseOffset (st_vmWorkItems st) \<and>
   length (st_ommDescArray st') = length (st_ommDescArray st)"
proof (induction keys arbitrary: st)
  case Nil
  then show ?case by simp
next
  case (Cons key keys)
  show ?case
  proof (cases "vmSpecialIndex (st_vmWorkItems st ! unat (snd key)) = kNoSpecialIndex")
    case False
    with Cons.prems have "Serialize_loop b s keys st = Inr st'"
      by (simp add: Let_def split: if_splits)
    from Cons.IH [OF this] show ?thesis .
  next
    case True
    with Cons.prems obtain bytes where
      lt: "unat (snd key) < length (st_vmWorkItems st)"
      and rest: "Serialize_loop b s keys
        \<lparr> st_ommArrayData = bytes,
          st_ommDescArray = (st_ommDescArray st)[unat (st_vmDescOffset st) :=
             \<lparr> desc_subdivisionLevel = of_nat (subdivisionLevel (st_vmWorkItems st ! unat (snd key))),
               desc_format = OMMFormat_u16 (vmFormat (st_vmWorkItems st ! unat (snd key))),
               desc_offset = st_ommArrayDataOffset st \<rparr>],
          st_ommArrayDataOffset = st_ommArrayDataOffset st +
             max (drop_bit 3 (of_nat (GetNumMicroTriangles
                    (subdivisionLevel (st_vmWorkItems st ! unat (snd key)))) * of_nat b)) 1,
          st_vmDescOffset = st_vmDescOffset st + 1,
          st_vmWorkItems = (st_vmWorkItems st)[unat (snd key) :=
             (st_vmWorkItems st ! unat (snd key)) \<lparr> vmDescOffset := st_vmDescOffset st \<rparr>] \<rparr> = Inr st'"
      by (auto simp: Let_def split: if_splits sum.splits)
    from Cons.IH [OF rest] lt show ?thesis
      by (simp add: eraseOffset_update)
  qed
qed

lemma Serialize_arrays_frame:
  "Serialize_arrays desc ws ah keys = Inr st \<Longrightarrow>
   map eraseOffset (st_vmWorkItems st) = map eraseOffset ws"
  by (auto simp: Serialize_arrays_def Let_def split: if_splits dest!: Serialize_loop_frame)

lemma map_eraseOffset_nth:
  "map eraseOffset ws' = map eraseOffset ws \<Longrightarrow> k < length ws \<Longrightarrow>
   vmSpecialIndex (ws' ! k) = vmSpecialIndex (ws ! k) \<and>
   primitiveIndices (ws' ! k) = primitiveIndices (ws ! k) \<and>
   subdivisionLevel (ws' ! k) = subdivisionLevel (ws ! k) \<and> k < length ws'"
proof -
  assume eq: "map eraseOffset ws' = map eraseOffset ws" and k: "k < length ws"
  from eq have len: "length ws' = length ws" by (metis length_map)
  from eq have "map eraseOffset ws' ! k = map eraseOffset ws ! k" by simp
  with k len have "eraseOffset (ws' ! k) = eraseOffset (ws ! k)" by simp
  then show ?thesis using k len by (metis eraseOffset_fields(1,2,3))
qed

lemma map_eraseOffset_prims:
  "map eraseOffset ws' = map eraseOffset ws \<Longrightarrow>
   map primitiveIndices ws' = map primitiveIndices ws"
proof -
  assume "map eraseOffset ws' = map eraseOffset ws"
  then have "map (primitiveIndices \<circ> eraseOffset) ws' = map (primitiveIndices \<circ> eraseOffset) ws"
    by (metis map_map)
  then show ?thesis by (simp add: comp_def)
qed

lemma fold_same: "(\<And>x s. f x s = s) \<Longrightarrow> fold f xs s = s"
  by (induction xs) simp_all

lemma Serialize_sizes_empty: "Serialize_sizes desc Histogram_new = (0, 0)"
  by (simp add: Serialize_sizes_def GetOmmCount_def Histogram_new_def fold_same)

lemma Serialize_histogram_empty: "Serialize_histogram Histogram_new = []"
  by (simp add: Serialize_histogram_def GetOmmCount_def Histogram_new_def)

lemma DeduplicateExact_single: "DeduplicateExact X options [w] = [w]"
  by (simp add: DeduplicateExact_def)

lemma DeduplicateSimilarBruteForce_single: "DeduplicateSimilarBruteForce options [w] = [w]"
  by (simp add: DeduplicateSimilarBruteForce_def)

lemma LSH_level_all_special:
  "\<forall>w \<in> set ws. vmSpecialIndex w \<noteq> kNoSpecialIndex \<Longrightarrow> LSH_level lib level (pos, ws) = (pos, ws)"
proof -
  assume a: "\<forall>w \<in> set ws. vmSpecialIndex w \<noteq> kNoSpecialIndex"
  have "filter (\<lambda>i. vmSpecialIndex (ws ! i) = kNoSpecialIndex \<and>
                     vmFormat (ws ! i) = OC1_4_State \<and> subdivisionLevel (ws ! i) = level)
          [0 ..< length ws] = []"
    using a by (simp add: filter_empty_conv)
  then show ?thesis by (simp add: LSH_level_def Let_def)
qed

lemma DeduplicateSimilarLSH_all_special:
  assumes "\<forall>w \<in> set ws. vmSpecialIndex w \<noteq> kNoSpecialIndex"
  shows "DeduplicateSimilarLSH lib options ws iterations = ws"
proof -
  have lv: "fold (LSH_level lib) ls (pos, ws) = (pos, ws)" for ls pos
    by (induction ls) (simp_all add: LSH_level_all_special [OF assms])
  have at: "fold (\<lambda>attempts st. fold (LSH_level lib) ls st) as (pos, ws) = (pos, ws)" for as pos ls
    by (induction as) (simp_all add: lv)
  show ?thesis by (simp only: DeduplicateSimilarLSH_def at snd_conv if_cancel)
qed

lemma sint_ucast_m2: "sint (ucast (- 2 :: 32 word) :: 16 word) = - 2"
  by simp

lemma Serialize_single_special:
  assumes sp: "vmSpecialIndex w1 \<noteq> kNoSpecialIndex"
    and ic: "indexCount desc = 3"
    and pr: "primitiveIndices w1 = [0]"
  shows "Serialize desc options [w1] Histogram_new Histogram_new keys =
          Inr (\<lparr> ommArrayData = [], ommDescArray = [],
                 ommIndexBuffer = Serialize_compress desc [vmSpecialIndex w1],
                 ommArrayHistogram = [], ommIndexHistogram = [] \<rparr>, [w1])"
proof -
  have arr: "Serialize_arrays desc [w1] Histogram_new keys =
          Inr \<lparr> st_ommArrayData = [], st_ommDescArray = [],
                st_ommArrayDataOffset = 0, st_vmDescOffset = 0, st_vmWorkItems = [w1] \<rparr>"
    by (simp add: Serialize_arrays_def Serialize_sizes_empty)
  have idx: "Serialize_indexBuffer [w1] (replicate (unat (indexCount desc) div 3) FullyUnknownOpaque)
               = Inr [vmSpecialIndex w1]"
    using sp by (simp add: ic pr)
  show ?thesis
    by (simp only: Serialize_def arr idx sum.case SerializeState.select_convs
          Serialize_histogram_empty)
qed

lemma single_opaque_bake:
  assumes ns: "\<not> disableSpecialIndices (Options_new (bakeFlags desc))"
    and ic: "indexCount desc = 3"
    and pr: "primitiveIndices w = [0]"
    and op: "\<forall>i < GetNumMicroTriangles (subdivisionLevel w). GetState (vmStates w) i = Opaque"
  shows "BakeImpl_resampled lib mCodeOf desc [w] =
          Inr (\<lparr> ommArrayData = [], ommDescArray = [],
                 ommIndexBuffer = Serialize_compress desc [- 2],
                 ommArrayHistogram = [], ommIndexHistogram = [] \<rparr>,
               [w \<lparr> vmSpecialIndex := - 2 \<rparr>])"
proof -
  let ?o = "Options_new (bakeFlags desc)"
  let ?w1 = "w \<lparr> vmSpecialIndex := - 2 \<rparr>"
  have p1: "PromoteToSpecialIndices desc ?o [w] = [?w1]"
    using PromoteToSpecialIndices_item_uniform [OF ns op, of desc]
    by (simp add: PromoteToSpecialIndices_def)
  have sp: "vmSpecialIndex ?w1 \<noteq> kNoSpecialIndex"
    by (simp add: kNoSpecialIndex_def)
  have op1: "\<forall>i < GetNumMicroTriangles (subdivisionLevel ?w1). GetState (vmStates ?w1) i = Opaque"
    using op by simp
  have p2: "PromoteToSpecialIndices desc ?o [?w1] = [?w1]"
    using PromoteToSpecialIndices_item_uniform [OF ns op1, of desc]
    by (simp add: PromoteToSpecialIndices_def)
  have lsh: "DeduplicateSimilarLSH lib ?o [?w1] 3 = [?w1]"
    by (rule DeduplicateSimilarLSH_all_special) (simp add: kNoSpecialIndex_def)
  have hist: "CreateUsageHistograms [?w1] Histogram_new Histogram_new = Inr (Histogram_new, Histogram_new)"
    using sp by simp
  have ser: "Serialize desc ?o [?w1] Histogram_new Histogram_new keys =
          Inr (\<lparr> ommArrayData = [], ommDescArray = [],
                 ommIndexBuffer = Serialize_compress desc [- 2],
                 ommArrayHistogram = [], ommIndexHistogram = [] \<rparr>, [?w1])" for keys
    using Serialize_single_special [OF sp ic, of ?o keys] pr by simp
  show ?thesis
    by (simp only: BakeImpl_resampled_def Let_def p1 DeduplicateExact_single lsh
          DeduplicateSimilarBruteForce_single p2 hist ser sum.case fst_conv snd_conv)
qed

lemma opaqueItem_states:
  "\<forall>i < GetNumMicroTriangles (subdivisionLevel opaqueItem). GetState (vmStates opaqueItem) i = Opaque"
proof -
  have "data (vmStates opaqueItem) = replicate 16 Opaque"
    by (simp add: opaqueItem_def ex_defs upt_rec eval_nat_numeral)
  then show ?thesis
    by (simp add: opaqueItem_def resampledItem_def OmmWorkItem_new_def GetNumMicroTriangles_def GetState_def)
qed

lemma Serialize_compress_read:
  assumes "i < length buf" "- (2 ^ 15) \<le> sint (buf ! i)" "sint (buf ! i) < 2 ^ 15"
  shows "GetOmmIndexForTriangleIndex (Serialize_compress desc buf) i = sint (buf ! i)"
  using assms by (simp add: Serialize_compress_def Let_def sint_narrow)

lemma Serialize_compress_count: "ommIndexCount (Serialize_compress desc buf) = length buf"
  by (simp add: Serialize_compress_def Let_def)

lemma PromoteToSpecialIndices_item_prims:
  "primitiveIndices (PromoteToSpecialIndices_item desc options w) = primitiveIndices w"
  by (simp add: PromoteToSpecialIndices_item_def Let_def)

lemma PromoteToSpecialIndices_prims:
  "map primitiveIndices (PromoteToSpecialIndices desc options ws) = map primitiveIndices ws"
  by (simp add: PromoteToSpecialIndices_def PromoteToSpecialIndices_item_prims)

lemma Serialize_success:
  assumes "Serialize desc options ws ah ih keys = Inr (res, ws')"
  obtains st buf where
    "Serialize_arrays desc ws ah keys = Inr st"
    "Serialize_indexBuffer (st_vmWorkItems st)
        (replicate (unat (indexCount desc) div 3) FullyUnknownOpaque) = Inr buf"
    "ommIndexBuffer res = Serialize_compress desc buf"
    "ommDescArray res = st_ommDescArray st"
    "ommArrayData res = st_ommArrayData st"
    "ommArrayHistogram res = Serialize_histogram ah"
    "ommIndexHistogram res = Serialize_histogram ih"
    "ws' = st_vmWorkItems st"
  using assms by (auto simp: Serialize_def split: sum.splits)

text \<open>
  C1, as stated, fails: a work item whose states are all Opaque gets the special index
  \<open>-2\<close>, not \<open>-1\<close> (the code computes \<open>-int(state) - 1\<close> and Opaque is 1). Baking
  one triangle whose 16 micro-triangles are all Opaque yields the index buffer
  \<open>[-2]\<close>, no descriptor and no array data.
\<close>

theorem opaque_bake_counterexample:
  "BakeImpl_resampled exampleLib exampleMorton exampleDesc [opaqueItem] =
     Inr (\<lparr> ommArrayData = [], ommDescArray = [], ommIndexBuffer = I16_UINT [- 2],
            ommArrayHistogram = [], ommIndexHistogram = [] \<rparr>,
          [opaqueItem \<lparr> vmSpecialIndex := - 2 \<rparr>]) \<and>
   GetOmmIndexForTriangleIndex (I16_UINT [- 2]) 0 \<noteq> - 1"
proof -
  have "Serialize_compress exampleDesc [- 2] = I16_UINT [- 2]"
    by (simp add: Serialize_compress_def exampleDesc_def flag_defs)
  moreover have "\<not> disableSpecialIndices (Options_new (bakeFlags exampleDesc))"
    by (simp add: exampleDesc_def Options_new_def flag_defs)
  moreover have "primitiveIndices opaqueItem = [0]" "indexCount exampleDesc = 3"
    by (simp_all add: opaqueItem_def resampledItem_def exampleDesc_def)
  ultimately show ?thesis
    using single_opaque_bake [of exampleDesc opaqueItem exampleLib exampleMorton] opaqueItem_states
    by simp
qed

text \<open>
  C1, amended: when DisableSpecialIndices is not set, \<open>PromoteToSpecialIndices\<close> gives a
  work item whose micro-triangle states are all Opaque the special index \<open>-2\<close>, and
  \<open>Serialize\<close> writes \<open>-2\<close> to the index-buffer entry of every primitive of that
  work item (the primitive lists of the work items are disjoint); in particular, baking
  one triangle whose states are all Opaque yields an index buffer with the single entry
  \<open>-2\<close>, no descriptor and no array data.
\<close>

theorem uniformly_opaque_special_index:
  assumes ns: "\<not> disableSpecialIndices options"
    and k: "k < length (vmWorkItems :: 'tri OmmWorkItem list)"
    and op: "\<forall>i < GetNumMicroTriangles (subdivisionLevel (vmWorkItems ! k)).
               GetState (vmStates (vmWorkItems ! k)) i = Opaque"
    and dist: "distinct (concat (map primitiveIndices vmWorkItems))"
    and p: "p \<in> set (primitiveIndices (vmWorkItems ! k))"
    and ser: "Serialize desc options (PromoteToSpecialIndices desc options vmWorkItems)
                arrayHistogram indexHistogram sortKeys = Inr (res, ws')"
  shows "sint (vmSpecialIndex (PromoteToSpecialIndices desc options vmWorkItems ! k)) = - 2 \<and>
         GetOmmIndexForTriangleIndex (ommIndexBuffer res) p = - 2 \<and>
         (\<forall>lib mCodeOf desc1 (w :: 'tri OmmWorkItem).
            \<not> disableSpecialIndices (Options_new (bakeFlags desc1)) \<and> indexCount desc1 = 3 \<and>
            primitiveIndices w = [0] \<and>
            (\<forall>i < GetNumMicroTriangles (subdivisionLevel w). GetState (vmStates w) i = Opaque) \<longrightarrow>
            (\<exists>res1 ws1. BakeImpl_resampled lib mCodeOf desc1 [w] = Inr (res1, ws1) \<and>
               ommIndexCount (ommIndexBuffer res1) = 1 \<and>
               GetOmmIndexForTriangleIndex (ommIndexBuffer res1) 0 = - 2 \<and>
               length (ommDescArray res1) = 0 \<and> length (ommArrayData res1) = 0))"
proof (intro conjI allI impI)
  let ?ws5 = "PromoteToSpecialIndices desc options vmWorkItems"
  have item: "?ws5 ! k = (vmWorkItems ! k) \<lparr> vmSpecialIndex := - 2 \<rparr>"
    using k PromoteToSpecialIndices_item_uniform [OF ns op, of desc]
    by (simp add: PromoteToSpecialIndices_def)
  then show sp: "sint (vmSpecialIndex (?ws5 ! k)) = - 2" by simp
  from ser obtain st buf where
    arr: "Serialize_arrays desc ?ws5 arrayHistogram sortKeys = Inr st"
    and idx: "Serialize_indexBuffer (st_vmWorkItems st)
        (replicate (unat (indexCount desc) div 3) FullyUnknownOpaque) = Inr buf"
    and res: "ommIndexBuffer res = Serialize_compress desc buf"
    by (rule Serialize_success)
  note fr = Serialize_arrays_frame [OF arr]
  have k5: "k < length ?ws5" using k by (simp add: PromoteToSpecialIndices_def)
  note nth = map_eraseOffset_nth [OF fr k5]
  let ?vm = "st_vmWorkItems st ! k"
  have prims: "map primitiveIndices (st_vmWorkItems st) = map primitiveIndices vmWorkItems"
    using map_eraseOffset_prims [OF fr] by (simp add: PromoteToSpecialIndices_prims)
  have d: "distinct (concat (map primitiveIndices (st_vmWorkItems st)))"
    using dist prims by simp
  have mem: "?vm \<in> set (st_vmWorkItems st)" using nth by simp
  have pm: "p \<in> set (primitiveIndices ?vm)"
    using p nth item by simp
  have val: "indexValue ?vm = - 2"
    using nth item by (simp add: indexValue_def kNoSpecialIndex_def)
  from Serialize_indexBuffer_written [OF idx d mem pm] val
  have lt: "p < unat (indexCount desc) div 3" and bp: "buf ! p = - 2" by simp_all
  have len: "length buf = unat (indexCount desc) div 3"
    using Serialize_indexBuffer_length [OF idx] by simp
  show "GetOmmIndexForTriangleIndex (ommIndexBuffer res) p = - 2"
    using Serialize_compress_read [of p buf desc] lt len bp res by simp
next
  fix lib :: LSHLibrary and mCodeOf :: "'tri \<Rightarrow> 64 word" and desc1 :: BakeInputDesc
    and w :: "'tri OmmWorkItem"
  assume a: "\<not> disableSpecialIndices (Options_new (bakeFlags desc1)) \<and> indexCount desc1 = 3 \<and>
            primitiveIndices w = [0] \<and>
            (\<forall>i < GetNumMicroTriangles (subdivisionLevel w). GetState (vmStates w) i = Opaque)"
  then have "BakeImpl_resampled lib mCodeOf desc1 [w] =
          Inr (\<lparr> ommArrayData = [], ommDescArray = [],
                 ommIndexBuffer = Serialize_compress desc1 [- 2],
                 ommArrayHistogram = [], ommIndexHistogram = [] \<rparr>,
               [w \<lparr> vmSpecialIndex := - 2 \<rparr>])"
    by (intro single_opaque_bake) simp_all
  moreover have "GetOmmIndexForTriangleIndex (Serialize_compress desc1 [- 2]) 0 = - 2"
    using Serialize_compress_read [of 0 "[- 2]" desc1] by simp
  ultimately show "\<exists>res1 ws1. BakeImpl_resampled lib mCodeOf desc1 [w] = Inr (res1, ws1) \<and>
               ommIndexCount (ommIndexBuffer res1) = 1 \<and>
               GetOmmIndexForTriangleIndex (ommIndexBuffer res1) 0 = - 2 \<and>
               length (ommDescArray res1) = 0 \<and> length (ommArrayData res1) = 0"
    by (simp add: Serialize_compress_count)
qed

theorem uniformly_opaque_special_index_witness:
  "sint (vmSpecialIndex (PromoteToSpecialIndices exampleDesc (Options_new 0) [opaqueItem] ! 0)) = - 2 \<and>
   GetOmmIndexForTriangleIndex (I16_UINT [- 2]) 0 = - 2 \<and>
   (\<exists>res1 ws1. BakeImpl_resampled exampleLib exampleMorton exampleDesc [opaqueItem] = Inr (res1, ws1) \<and>
       ommIndexCount (ommIndexBuffer res1) = 1 \<and>
       GetOmmIndexForTriangleIndex (ommIndexBuffer res1) 0 = - 2 \<and>
       length (ommDescArray res1) = 0 \<and> length (ommArrayData res1) = 0)"
proof -
  let ?o = "Options_new 0"
  let ?w1 = "opaqueItem \<lparr> vmSpecialIndex := - 2 \<rparr>"
  have ns: "\<not> disableSpecialIndices ?o"
    by (simp add: Options_new_def flag_defs)
  have ns': "\<not> disableSpecialIndices (Options_new (bakeFlags exampleDesc))"
    by (simp add: exampleDesc_def Options_new_def flag_defs)
  have pr: "primitiveIndices opaqueItem = [0]" and ic: "indexCount exampleDesc = 3"
    by (simp_all add: opaqueItem_def resampledItem_def exampleDesc_def)
  have p1: "PromoteToSpecialIndices exampleDesc ?o [opaqueItem] = [?w1]"
    using PromoteToSpecialIndices_item_uniform [OF ns opaqueItem_states, of exampleDesc]
    by (simp add: PromoteToSpecialIndices_def)
  have cmp: "Serialize_compress exampleDesc [- 2] = I16_UINT [- 2]"
    by (simp add: Serialize_compress_def exampleDesc_def flag_defs)
  have ser: "Serialize exampleDesc ?o (PromoteToSpecialIndices exampleDesc ?o [opaqueItem])
               Histogram_new Histogram_new [] =
             Inr (\<lparr> ommArrayData = [], ommDescArray = [], ommIndexBuffer = I16_UINT [- 2],
                    ommArrayHistogram = [], ommIndexHistogram = [] \<rparr>, [?w1])"
    using Serialize_single_special [of ?w1 exampleDesc ?o "[]"] pr ic
    by (simp add: p1 cmp kNoSpecialIndex_def)
  have k: "0 < length [opaqueItem]" by simp
  have op: "\<forall>i < GetNumMicroTriangles (subdivisionLevel ([opaqueItem] ! 0)).
               GetState (vmStates ([opaqueItem] ! 0)) i = Opaque"
    using opaqueItem_states by simp
  have dist: "distinct (concat (map primitiveIndices [opaqueItem]))" by (simp add: pr)
  have p: "0 \<in> set (primitiveIndices ([opaqueItem] ! 0))" by (simp add: pr)
  from uniformly_opaque_special_index [OF ns k op dist p ser]
  show ?thesis using ns' ic pr opaqueItem_states by simp
qed

subsection \<open>The array histogram and the descriptor count\<close>

lemma twoStateItem_promote:
  "PromoteToSpecialIndices exampleDesc (Options_new 0) [twoStateItem] = [twoStateItem]"
  by (simp add: PromoteToSpecialIndices_def PromoteToSpecialIndices_item_def twoStateItem_def
        exampleDesc_def ex_defs upt_rec Let_def)

lemma twoStateItem_histograms:
  "CreateUsageHistograms [twoStateItem] Histogram_new Histogram_new =
     Inr (exampleHistogram,
          exampleHistogram)"
  by (simp add: twoStateItem_def ex_defs Inc_def kMaxNumSubdivLevels_def exampleHistogram_def
        Histogram_new_def fun_eq_iff)

lemma twoStateItem_sizes:
  "Serialize_sizes exampleDesc (exampleHistogram)
     = (0, 0)"
  by (simp add: Serialize_sizes_def exampleDesc_def GetOmmCount_def exampleHistogram_def fold_same)

lemma twoStateItem_histogram_records:
  "Serialize_histogram (exampleHistogram)
     = [\<lparr> usage_count = 1, usage_subdivisionLevel = 1, usage_format = 1 \<rparr>]"
  by (simp add: Serialize_histogram_def GetOmmCount_def exampleHistogram_def kMaxNumSubdivLevels_def
        upt_rec)

lemma ucast_minus_one: "(ucast (- 1 :: 32 word) :: 16 word) = - 1"
  by (rule bit_word_eqI) (simp add: bit_simps)

text \<open>
  The bake of one non-uniform triangle whose own format is OC1\_2\_State, under the
  global format OC1\_4\_State.
\<close>

lemma twoStateItem_bake:
  "BakeImpl_resampled exampleLib exampleMorton exampleDesc [twoStateItem] =
     Inr (\<lparr> ommArrayData = [], ommDescArray = [], ommIndexBuffer = I16_UINT [- 1],
            ommArrayHistogram = [\<lparr> usage_count = 1, usage_subdivisionLevel = 1, usage_format = 1 \<rparr>],
            ommIndexHistogram = [\<lparr> usage_count = 1, usage_subdivisionLevel = 1, usage_format = 1 \<rparr>] \<rparr>,
          [twoStateItem])"
proof -
  let ?h = "exampleHistogram"
  have o: "Options_new (bakeFlags exampleDesc) = Options_new 0"
    by (simp add: exampleDesc_def)
  have g: "\<not> enableNearDuplicateDetection (Options_new 0)"
    by (simp add: Options_new_def flag_defs)
  have lsh: "DeduplicateSimilarLSH exampleLib (Options_new 0) [twoStateItem] 3 = [twoStateItem]"
    using g by (simp add: DeduplicateSimilarLSH_def)
  have arr: "Serialize_arrays exampleDesc [twoStateItem] ?h keys =
          Inr \<lparr> st_ommArrayData = [], st_ommDescArray = [],
                st_ommArrayDataOffset = 0, st_vmDescOffset = 0, st_vmWorkItems = [twoStateItem] \<rparr>" for keys
    by (simp only: Serialize_arrays_def twoStateItem_sizes Let_def fst_conv snd_conv) simp
  have idx: "Serialize_indexBuffer [twoStateItem]
               (replicate (unat (indexCount exampleDesc) div 3) FullyUnknownOpaque) = Inr [- 1]"
    by (simp add: twoStateItem_def ex_defs exampleDesc_def)
  have cmp: "Serialize_compress exampleDesc [- 1] = I16_UINT [- 1]"
    by (simp add: Serialize_compress_def exampleDesc_def flag_defs ucast_minus_one)
  have ser: "Serialize exampleDesc (Options_new 0) [twoStateItem] ?h ?h keys =
     Inr (\<lparr> ommArrayData = [], ommDescArray = [], ommIndexBuffer = I16_UINT [- 1],
            ommArrayHistogram = [\<lparr> usage_count = 1, usage_subdivisionLevel = 1, usage_format = 1 \<rparr>],
            ommIndexHistogram = [\<lparr> usage_count = 1, usage_subdivisionLevel = 1, usage_format = 1 \<rparr>] \<rparr>,
          [twoStateItem])" for keys
    by (simp only: Serialize_def arr idx sum.case SerializeState.select_convs
          twoStateItem_histogram_records cmp)
  show ?thesis
    by (simp only: BakeImpl_resampled_def Let_def o twoStateItem_promote DeduplicateExact_single lsh
          DeduplicateSimilarBruteForce_single twoStateItem_histograms ser sum.case fst_conv snd_conv)
qed

text \<open>
  C6: after a successful bake the counts of the \<open>ommArrayHistogram\<close> records should add
  up to \<open>ommDescArrayCount\<close>, for every combination of global and per-primitive formats.
  \<open>Serialize\<close> sizes the descriptor array from the histogram at the global format only:
  with the global format OC1\_4\_State and one non-uniform triangle whose own format is
  OC1\_2\_State, the bake succeeds with no descriptor, while the array histogram holds
  one record of count 1 (and the index buffer holds the unassigned descriptor offset,
  read as \<open>-1\<close>).
\<close>

theorem mixed_format_histogram_mismatch:
  "BakeImpl_resampled exampleLib exampleMorton exampleDesc [twoStateItem] =
     Inr (\<lparr> ommArrayData = [], ommDescArray = [], ommIndexBuffer = I16_UINT [- 1],
            ommArrayHistogram = [\<lparr> usage_count = 1, usage_subdivisionLevel = 1, usage_format = 1 \<rparr>],
            ommIndexHistogram = [\<lparr> usage_count = 1, usage_subdivisionLevel = 1, usage_format = 1 \<rparr>] \<rparr>,
          [twoStateItem]) \<and>
   sum_list (map unat (map usage_count
     [\<lparr> usage_count = 1, usage_subdivisionLevel = 1, usage_format = 1 \<rparr>])) = 1 \<and>
   length ([] :: OpacityMicromapDesc list) = 0 \<and>
   ommFormat exampleDesc = OC1_4_State \<and> vmFormat twoStateItem = OC1_2_State"
  using twoStateItem_bake
  by (simp add: exampleDesc_def twoStateItem_def resampledItem_def OmmWorkItem_new_def)

subsection \<open>The passes before the serializer\<close>

lemma pass_rel_refl: "pass_rel w w"
  by (simp add: pass_rel_def)

lemma pass_rel_trans: "pass_rel a b \<Longrightarrow> pass_rel b c \<Longrightarrow> pass_rel a c"
  by (auto simp: pass_rel_def)

lemma pass_all_refl: "list_all2 pass_rel ws ws"
  by (simp add: list_all2_refl pass_rel_refl)

lemma pass_all_trans:
  "list_all2 pass_rel xs ys \<Longrightarrow> list_all2 pass_rel ys zs \<Longrightarrow> list_all2 pass_rel xs zs"
  by (rule list_all2_trans [of pass_rel pass_rel pass_rel]) (auto intro: pass_rel_trans)

lemma pass_all_fold:
  assumes "\<And>x s. list_all2 pass_rel (g s) (g (f x s))"
  shows "list_all2 pass_rel (g s) (g (fold f xs s))"
proof (induction xs arbitrary: s)
  case Nil
  show ?case by (simp add: pass_all_refl)
next
  case (Cons x xs)
  have "list_all2 pass_rel (g s) (g (f x s))" by (rule assms)
  moreover have "list_all2 pass_rel (g (f x s)) (g (fold f xs (f x s)))" by (rule Cons.IH)
  ultimately show ?case by (simp add: pass_all_trans)
qed

lemma pass_rel_promote: "pass_rel w (PromoteToSpecialIndices_item desc options w)"
proof -
  have "- OpacityState_u32 s - 1 \<in> {- 1, - 2, - 3, - 4 :: 32 word}" for s
    by (cases s) simp_all
  then show ?thesis
    by (simp add: pass_rel_def PromoteToSpecialIndices_item_def Let_def)
qed

lemma pass_all_promote: "list_all2 pass_rel ws (PromoteToSpecialIndices desc options ws)"
  by (simp add: PromoteToSpecialIndices_def list_all2_conv_all_nth pass_rel_promote)

lemma pass_rel_merge_to: "pass_rel to (fst (MergeWorkItems to from))"
  by (simp add: pass_rel_def MergeWorkItems_def Let_def)

lemma pass_rel_merge_from: "pass_rel from (snd (MergeWorkItems to from))"
  by (simp add: pass_rel_def MergeWorkItems_def Let_def)

lemma pass_all_update2:
  assumes "a < length ws \<Longrightarrow> pass_rel (ws ! a) x"
    and "b < length ws \<Longrightarrow> pass_rel (ws ! b) y"
  shows "list_all2 pass_rel ws (ws[a := x, b := y])"
  unfolding list_all2_conv_all_nth
proof (intro conjI allI impI)
  show "length ws = length (ws[a := x, b := y])" by simp
next
  fix i assume i: "i < length ws"
  show "pass_rel (ws ! i) (ws[a := x, b := y] ! i)"
  proof (cases "i = b")
    case True
    then show ?thesis using i assms(2) by simp
  next
    case False
    then show ?thesis using i assms(1) by (cases "i = a") (simp_all add: pass_rel_refl)
  qed
qed

lemma pass_all_merge:
  "list_all2 pass_rel ws
     (ws[a := fst (MergeWorkItems (ws ! a) (ws ! b)), b := snd (MergeWorkItems (ws ! a) (ws ! b))])"
  by (rule pass_all_update2) (rule pass_rel_merge_to pass_rel_merge_from)+

lemma pass_all_exact_loop:
  "list_all2 pass_rel ws (DeduplicateExact_loop X is m ws)"
proof (induction "is" arbitrary: m ws)
  case Nil
  show ?case by (simp add: pass_all_refl)
next
  case (Cons i rest)
  show ?case
  proof (cases "m (CalcDigest X (ws ! i))")
    case None
    then show ?thesis using Cons.IH by (simp add: Let_def)
  next
    case (Some j)
    let ?ws1 = "ws[j := (ws ! j) \<lparr> primitiveIndices :=
                    primitiveIndices (ws ! j) @ primitiveIndices (ws ! i) \<rparr>]"
    let ?ws2 = "?ws1[i := (?ws1 ! i) \<lparr> primitiveIndices := [], vmSpecialIndex := - 1 \<rparr>]"
    have "list_all2 pass_rel ws ?ws2"
    proof (rule pass_all_update2)
      show "pass_rel (ws ! j) ((ws ! j) \<lparr> primitiveIndices :=
                    primitiveIndices (ws ! j) @ primitiveIndices (ws ! i) \<rparr>)"
        by (simp add: pass_rel_def)
      assume "i < length ws"
      then show "pass_rel (ws ! i) ((?ws1 ! i) \<lparr> primitiveIndices := [], vmSpecialIndex := - 1 \<rparr>)"
        by (cases "i = j") (simp_all add: pass_rel_def)
    qed
    moreover have "list_all2 pass_rel ?ws2 (DeduplicateExact_loop X rest m ?ws2)"
      by (rule Cons.IH)
    ultimately show ?thesis using Some by (simp add: Let_def pass_all_trans)
  qed
qed

lemma pass_all_exact: "list_all2 pass_rel ws (DeduplicateExact X options ws)"
  by (simp add: DeduplicateExact_def pass_all_refl pass_all_exact_loop)

lemma pass_all_brute_step:
  "list_all2 pass_rel (snd st) (snd (BruteForce_outer_step itA st))"
  by (simp add: BruteForce_outer_step_def Let_def pass_all_refl pass_all_merge)

lemma pass_all_brute: "list_all2 pass_rel ws (DeduplicateSimilarBruteForce options ws)"
proof -
  have "list_all2 pass_rel (snd (M, ws)) (snd (fold BruteForce_outer_step xs (M, ws)))" for M xs
    by (rule pass_all_fold) (rule pass_all_brute_step)
  then show ?thesis
    by (simp add: DeduplicateSimilarBruteForce_def pass_all_refl)
qed

lemma pass_all_lsh_merge:
  "list_all2 pass_rel ws (LSH_merge_step hashTables L r workItemIndex ws)"
  by (simp add: LSH_merge_step_def Let_def pass_all_refl pass_all_merge)

lemma pass_all_lsh_level:
  "list_all2 pass_rel (snd st) (snd (LSH_level lib level st))"
proof -
  have mg: "list_all2 pass_rel ws (fold (LSH_merge_step hashTables L r) xs ws)"
    for hashTables L r xs and ws :: "'a OmmWorkItem list"
    using pass_all_fold [of "\<lambda>s. s" "LSH_merge_step hashTables L r" ws xs]
    by (simp add: pass_all_lsh_merge)
  show ?thesis
    by (simp add: LSH_level_def Let_def pass_all_refl mg)
qed

lemma pass_all_lsh: "list_all2 pass_rel ws (DeduplicateSimilarLSH lib options ws iterations)"
proof (cases "\<not> enableNearDuplicateDetection options \<or> enableNearDuplicateDetectionBruteForce options")
  case True
  then show ?thesis by (simp add: DeduplicateSimilarLSH_def pass_all_refl)
next
  case False
  have lv: "list_all2 pass_rel (snd st) (snd (fold (LSH_level lib) ls st))"
    for ls and st :: "nat \<times> 'a OmmWorkItem list"
    by (rule pass_all_fold) (rule pass_all_lsh_level)
  have at: "list_all2 pass_rel (snd st)
          (snd (fold (\<lambda>attempts st. fold (LSH_level lib) ls st) as st))"
    for ls as and st :: "nat \<times> 'a OmmWorkItem list"
    by (rule pass_all_fold) (rule lv)
  have eq: "DeduplicateSimilarLSH lib options ws iterations =
        snd (fold (\<lambda>attempts st. fold (LSH_level lib) [1 ..< kMaxSubdivLevel + 1] st)
               [0 ..< iterations] (0, ws))"
    using False by (simp only: DeduplicateSimilarLSH_def if_False)
  show ?thesis
    using at [of "(0, ws)" "[1 ..< kMaxSubdivLevel + 1]" "[0 ..< iterations]"]
    by (simp only: eq snd_conv)
qed

subsection \<open>The descriptor loop\<close>

lemma unat_succ_le: "unat (c + 1 :: 32 word) \<le> unat c + 1"
proof -
  have "unat (c + 1) = (unat c + unat (1 :: 32 word)) mod 2 ^ LENGTH(32)"
    by (rule unat_word_ariths(1))
  also have "\<dots> \<le> unat c + unat (1 :: 32 word)" by (rule mod_less_eq_dividend)
  finally show ?thesis by simp
qed

lemma Serialize_loop_step:
  assumes "Serialize_loop b s (key # keys) st = Inr st'"
  obtains (skip) "unat (snd key) < length (st_vmWorkItems st)"
      "vmSpecialIndex (st_vmWorkItems st ! unat (snd key)) \<noteq> kNoSpecialIndex"
      "Serialize_loop b s keys st = Inr st'"
  | (emit) bytes where "unat (snd key) < length (st_vmWorkItems st)"
      "vmSpecialIndex (st_vmWorkItems st ! unat (snd key)) = kNoSpecialIndex"
      "unat (st_ommArrayDataOffset st) < s"
      "unat (st_vmDescOffset st) < length (st_ommDescArray st)"
      "Serialize_loop b s keys
        \<lparr> st_ommArrayData = bytes,
          st_ommDescArray = (st_ommDescArray st)[unat (st_vmDescOffset st) :=
             \<lparr> desc_subdivisionLevel = of_nat (subdivisionLevel (st_vmWorkItems st ! unat (snd key))),
               desc_format = OMMFormat_u16 (vmFormat (st_vmWorkItems st ! unat (snd key))),
               desc_offset = st_ommArrayDataOffset st \<rparr>],
          st_ommArrayDataOffset = st_ommArrayDataOffset st +
             max (drop_bit 3 (of_nat (GetNumMicroTriangles
                    (subdivisionLevel (st_vmWorkItems st ! unat (snd key)))) * of_nat b)) 1,
          st_vmDescOffset = st_vmDescOffset st + 1,
          st_vmWorkItems = (st_vmWorkItems st)[unat (snd key) :=
             (st_vmWorkItems st ! unat (snd key)) \<lparr> vmDescOffset := st_vmDescOffset st \<rparr>] \<rparr> = Inr st'"
proof (cases "vmSpecialIndex (st_vmWorkItems st ! unat (snd key)) = kNoSpecialIndex")
  case False
  with assms have lt: "unat (snd key) < length (st_vmWorkItems st)"
      and rest: "Serialize_loop b s keys st = Inr st'"
    by (simp_all add: Let_def split: if_splits)
  from lt False rest show ?thesis by (rule skip)
next
  case True
  with assms show ?thesis
    by (auto simp: Let_def split: if_splits sum.splits intro: emit)
qed

lemma Serialize_loop_offsets:
  "Serialize_loop b s keys st = Inr st' \<Longrightarrow> i < length (st_vmWorkItems st) \<Longrightarrow>
   offset_kept st keys st' i \<or> offset_set st keys st' i"
proof (induction keys arbitrary: st)
  case Nil
  then show ?case by (simp add: offset_kept_def)
next
  case (Cons key keys)
  from Cons.prems(1) show ?case
  proof (cases rule: Serialize_loop_step)
    case skip
    from Cons.IH [OF skip(3) Cons.prems(2)] show ?thesis
    proof
      assume "offset_kept st keys st' i"
      then have "offset_kept st (key # keys) st' i"
        using skip(2) by (auto simp: offset_kept_def)
      then show ?thesis ..
    next
      assume "offset_set st keys st' i"
      then have "offset_set st (key # keys) st' i"
        by (simp add: offset_set_def)
      then show ?thesis ..
    qed
  next
    case (emit bytes)
    let ?k = "unat (snd key)"
    let ?st1 = "\<lparr> st_ommArrayData = bytes,
          st_ommDescArray = (st_ommDescArray st)[unat (st_vmDescOffset st) :=
             \<lparr> desc_subdivisionLevel = of_nat (subdivisionLevel (st_vmWorkItems st ! ?k)),
               desc_format = OMMFormat_u16 (vmFormat (st_vmWorkItems st ! ?k)),
               desc_offset = st_ommArrayDataOffset st \<rparr>],
          st_ommArrayDataOffset = st_ommArrayDataOffset st +
             max (drop_bit 3 (of_nat (GetNumMicroTriangles
                    (subdivisionLevel (st_vmWorkItems st ! ?k))) * of_nat b)) 1,
          st_vmDescOffset = st_vmDescOffset st + 1,
          st_vmWorkItems = (st_vmWorkItems st)[?k :=
             (st_vmWorkItems st ! ?k) \<lparr> vmDescOffset := st_vmDescOffset st \<rparr>] \<rparr>"
    have i1: "i < length (st_vmWorkItems ?st1)" using Cons.prems(2) by simp
    note ih = Cons.IH [OF emit(5) i1]
    have bound: "unat (st_vmDescOffset st + 1) + length keys \<le> unat (st_vmDescOffset st) + length (key # keys)"
      using unat_succ_le [of "st_vmDescOffset st"] by simp
    from ih show ?thesis
    proof
      assume kept: "offset_kept ?st1 keys st' i"
      show ?thesis
      proof (cases "i = ?k")
        case True
        then have "vmDescOffset (st_vmWorkItems st' ! i) = st_vmDescOffset st"
          using kept emit(1) by (simp add: offset_kept_def)
        then have "offset_set st (key # keys) st' i"
          using emit(4) by (simp add: offset_set_def)
        then show ?thesis ..
      next
        case False
        then have "offset_kept st (key # keys) st' i"
          using kept by (auto simp: offset_kept_def)
        then show ?thesis ..
      qed
    next
      assume "offset_set ?st1 keys st' i"
      then have "offset_set st (key # keys) st' i"
        using bound by (simp add: offset_set_def)
      then show ?thesis ..
    qed
  qed
qed

subsection \<open>Entries of the index buffer\<close>

lemma MicromapSpatialSort_set:
  "set (MicromapSpatialSort mc ws) = (\<lambda>i. sortKey mc i (ws ! i)) ` {0 ..< length ws}"
  by (simp add: MicromapSpatialSort_def)

lemma MicromapSpatialSort_length: "length (MicromapSpatialSort mc ws) = length ws"
  by (simp add: MicromapSpatialSort_def)

lemma sortKey_snd: "snd (sortKey mc i w) = of_nat i"
  by (simp add: sortKey_def)

lemma unat_of_nat_32: "i < 4294967296 \<Longrightarrow> unat (of_nat i :: 32 word) = i"
  by (simp add: unat_of_nat)

lemma MicromapSpatialSort_covers:
  assumes "length ws < 4294967296" "i < length ws"
  shows "i \<in> (\<lambda>key. unat (snd key)) ` set (MicromapSpatialSort mc ws)"
proof -
  have "sortKey mc i (ws ! i) \<in> set (MicromapSpatialSort mc ws)"
    using assms(2) by (simp add: MicromapSpatialSort_set)
  moreover have "unat (snd (sortKey mc i (ws ! i))) = i"
    using assms by (simp add: sortKey_snd unat_of_nat_32)
  ultimately show ?thesis by force
qed

lemma triangleCount_bound: "unat (indexCount desc) div 3 < 2147483648"
proof -
  have "unat (indexCount desc) < 2 ^ LENGTH(32)" by (rule unsigned_less)
  then show ?thesis by simp
qed

lemma entry_ok_special:
  "v \<in> {- 1, - 2, - 3, - 4} \<Longrightarrow> entry_ok n t v"
  by (auto simp: entry_ok_def)

lemma entry_ok_offset:
  assumes "unat v < n" "unat v < t" "t < 2147483648"
  shows "entry_ok n t v"
proof -
  have s: "sint v = int (unat v)" using assms by (intro sint_small_unat) simp
  have "0 \<le> sint v" and "sint v < int n" and "sint v < int t"
    using s assms by linarith+
  then show ?thesis by (simp add: entry_ok_def)
qed

lemma Serialize_arrays_cases:
  assumes "Serialize_arrays desc ws ah keys = Inr st"
  obtains (empty) "st_vmWorkItems st = ws" "st_ommDescArray st = []"
  | (loop) st0 where "st_vmWorkItems st0 = ws" "st_vmDescOffset st0 = 0"
      "Serialize_loop (GetBitCount (ommFormat desc)) (snd (Serialize_sizes desc ah)) keys st0 = Inr st"
      "st_ommDescArray st0 = replicate (unat (fst (Serialize_sizes desc ah)))
          \<lparr> desc_subdivisionLevel = 0, desc_format = 0, desc_offset = 0 \<rparr>"
proof (cases "fst (Serialize_sizes desc ah) = 0")
  case True
  with assms have "st_vmWorkItems st = ws" "st_ommDescArray st = []"
    by (auto simp: Serialize_arrays_def Let_def split: if_splits)
  then show ?thesis by (rule empty)
next
  case False
  let ?st0 = "\<lparr> st_ommArrayData = replicate (snd (Serialize_sizes desc ah)) 0,
               st_ommDescArray = replicate (unat (fst (Serialize_sizes desc ah)))
                  \<lparr> desc_subdivisionLevel = 0, desc_format = 0, desc_offset = 0 \<rparr>,
               st_ommArrayDataOffset = 0,
               st_vmDescOffset = 0,
               st_vmWorkItems = ws \<rparr>"
  from False assms have
    "Serialize_loop (GetBitCount (ommFormat desc)) (snd (Serialize_sizes desc ah)) keys ?st0 = Inr st"
    by (simp add: Serialize_arrays_def Let_def split: if_splits)
  then show ?thesis by (intro loop [of ?st0]) simp_all
qed

lemma Serialize_arrays_entries:
  assumes inv: "\<forall>w \<in> set ws. vmSpecialIndex w \<in> {0, - 1, - 2, - 3, - 4} \<and> vmDescOffset w = 0xFFFFFFFF"
    and len: "length ws \<le> t" and t: "t < 2147483648"
    and arr: "Serialize_arrays desc ws ah (MicromapSpatialSort mc ws) = Inr st"
    and i: "i < length ws"
  shows "entry_ok (length (st_ommDescArray st)) t (indexValue (st_vmWorkItems st ! i))"
proof -
  let ?keys = "MicromapSpatialSort mc ws"
  note fr = map_eraseOffset_nth [OF Serialize_arrays_frame [OF arr] i]
  have wi: "ws ! i \<in> set ws" using i by simp
  show ?thesis
  proof (cases "vmSpecialIndex (ws ! i) = kNoSpecialIndex")
    case False
    then have "indexValue (st_vmWorkItems st ! i) = vmSpecialIndex (ws ! i)"
      using fr by (simp add: indexValue_def)
    moreover have "vmSpecialIndex (ws ! i) \<in> {- 1, - 2, - 3, - 4}"
      using inv wi False by (auto simp: kNoSpecialIndex_def)
    ultimately show ?thesis by (simp add: entry_ok_special)
  next
    case True
    then have val: "indexValue (st_vmWorkItems st ! i) = vmDescOffset (st_vmWorkItems st ! i)"
      using fr by (simp add: indexValue_def)
    from arr show ?thesis
    proof (cases rule: Serialize_arrays_cases)
      case empty
      then have "vmDescOffset (st_vmWorkItems st ! i) = - 1" using inv wi by simp
      then show ?thesis using val by (simp add: entry_ok_special)
    next
      case (loop st0)
      have i0: "i < length (st_vmWorkItems st0)" using i loop(1) by simp
      have cov: "i \<in> (\<lambda>key. unat (snd key)) ` set ?keys"
        using len t i by (intro MicromapSpatialSort_covers) simp_all
      from Serialize_loop_offsets [OF loop(3) i0]
      have "offset_set st0 ?keys st i"
        using True cov loop(1) by (auto simp: offset_kept_def)
      moreover have "length (st_ommDescArray st) = length (st_ommDescArray st0)"
        using Serialize_loop_frame [OF loop(3)] by simp
      ultimately have "unat (vmDescOffset (st_vmWorkItems st ! i)) < length (st_ommDescArray st)"
        and "unat (vmDescOffset (st_vmWorkItems st ! i)) < t"
        using loop(2) len by (simp_all add: offset_set_def MicromapSpatialSort_length)
      then show ?thesis using val t by (simp add: entry_ok_offset)
    qed
  qed
qed

lemma Serialize_setIndices_set:
  "Serialize_setIndices v ps buf = Inr buf' \<Longrightarrow> set buf' \<subseteq> insert v (set buf)"
proof (induction ps arbitrary: buf)
  case Nil
  then show ?case by auto
next
  case (Cons p ps)
  from Cons.prems have rest: "Serialize_setIndices v ps (buf[p := v]) = Inr buf'"
    by (simp split: if_splits)
  from Cons.IH [OF rest] set_update_subset_insert [of buf p v] show ?case by blast
qed

lemma Serialize_indexBuffer_set:
  "Serialize_indexBuffer ws buf = Inr buf' \<Longrightarrow>
   set buf' \<subseteq> indexValue ` set ws \<union> set buf"
proof (induction ws arbitrary: buf)
  case Nil
  then show ?case by simp
next
  case (Cons w ws)
  from Cons.prems obtain buf1 where
    one: "Serialize_setIndices (indexValue w) (primitiveIndices w) buf = Inr buf1"
    and rest: "Serialize_indexBuffer ws buf1 = Inr buf'"
    by (auto simp: indexValue_def split: sum.splits)
  from Cons.IH [OF rest] Serialize_setIndices_set [OF one] show ?case by auto
qed

subsection \<open>A bake of two triangles, evaluated\<close>

lemma levelOneItem_eq:
  "levelOneItem = \<lparr> subdivisionLevel = 1, vmFormat = OC1_4_State, uvTri = (),
      primitiveIndices = [0], vmDescOffset = 0xFFFFFFFF, vmSpecialIndex = 0,
      vmStates = \<lparr> data = [Opaque, Transparent, Opaque, Opaque],
                   data3state = [Opaque, Transparent, Opaque, Opaque] \<rparr> \<rparr>"
  by (simp add: levelOneItem_def ex_defs upt_rec eval_nat_numeral)

lemma levelTwoItem_eq:
  "levelTwoItem = \<lparr> subdivisionLevel = 2, vmFormat = OC1_4_State, uvTri = (),
      primitiveIndices = [1], vmDescOffset = 0xFFFFFFFF, vmSpecialIndex = 0,
      vmStates = \<lparr> data = [Opaque, Transparent, UnknownOpaque, UnknownTransparent,
                Opaque, Opaque, Opaque, Opaque, Transparent, Transparent,
                Transparent, Transparent, Opaque, Opaque, Opaque, Opaque],
                   data3state = [Opaque, Transparent, UnknownOpaque, UnknownOpaque,
                Opaque, Opaque, Opaque, Opaque, Transparent, Transparent,
                Transparent, Transparent, Opaque, Opaque, Opaque, Opaque] \<rparr> \<rparr>"
  by (simp add: levelTwoItem_def ex_defs upt_rec eval_nat_numeral)

lemma twoLevel_promote:
  "PromoteToSpecialIndices twoTriangleDesc (Options_new 0) [levelOneItem, levelTwoItem] =
     [levelOneItem, levelTwoItem]"
  by (simp add: PromoteToSpecialIndices_def PromoteToSpecialIndices_item_def twoTriangleDesc_def
        levelOneItem_eq levelTwoItem_eq GetNumMicroTriangles_def GetState_def upt_rec Let_def)

lemma twoLevel_exact:
  "DeduplicateExact (lsh_XXH64 exampleLib) (Options_new 0) [levelOneItem, levelTwoItem] =
     [levelOneItem, levelTwoItem]"
  by (simp add: DeduplicateExact_def Options_new_def flag_defs CalcDigest_def exampleLib_def
        levelOneItem_eq levelTwoItem_eq upt_rec Let_def)

lemma twoLevel_histograms:
  "CreateUsageHistograms [levelOneItem, levelTwoItem] Histogram_new Histogram_new =
     Inr (twoLevelHistogram, twoLevelHistogram)"
  by (simp add: levelOneItem_eq levelTwoItem_eq kNoSpecialIndex_def Inc_def kMaxNumSubdivLevels_def
        twoLevelHistogram_def Histogram_new_def fun_eq_iff)

lemma twoLevel_sort:
  "MicromapSpatialSort exampleMorton [levelOneItem, levelTwoItem] =
     [(2305843009213693952, 1), (1152921504606846976, 0)]"
  by (simp add: MicromapSpatialSort_def sortKey_def exampleMorton_def levelOneItem_eq levelTwoItem_eq
        kNoSpecialIndex_def upt_rec)

lemma twoLevel_sizes: "Serialize_sizes twoTriangleDesc twoLevelHistogram = (2, 5)"
  by (simp add: Serialize_sizes_def twoTriangleDesc_def twoLevelHistogram_def GetOmmCount_def
        GetNumMicroTriangles_def kMaxNumSubdivLevels_def upt_rec drop_bit_eq_div)

lemma twoLevel_states_one:
  "Serialize_states False (vmStates levelOneItem) 4 [0 ..< 4] [177, 85, 0, 85, 0] =
     Inr [177, 85, 0, 85, 81]"
  unfolding levelOneItem_eq by code_simp

lemma twoLevel_states_two:
  "Serialize_states False (vmStates levelTwoItem) 0 [0 ..< 16] [0, 0, 0, 0, 0] =
     Inr [177, 85, 0, 85, 0]"
  unfolding levelTwoItem_eq by code_simp

lemma levelOneItem_fields:
  "subdivisionLevel levelOneItem = 1" "vmFormat levelOneItem = OC1_4_State"
  "vmSpecialIndex levelOneItem = 0" "primitiveIndices levelOneItem = [0]"
  "vmDescOffset levelOneItem = 0xFFFFFFFF"
  by (simp_all add: levelOneItem_eq)

lemma levelTwoItem_fields:
  "subdivisionLevel levelTwoItem = 2" "vmFormat levelTwoItem = OC1_4_State"
  "vmSpecialIndex levelTwoItem = 0" "primitiveIndices levelTwoItem = [1]"
  "vmDescOffset levelTwoItem = 0xFFFFFFFF"
  by (simp_all add: levelTwoItem_eq)

lemma twoLevel_arrays:
  "Serialize_arrays twoTriangleDesc [levelOneItem, levelTwoItem] twoLevelHistogram
      [(2305843009213693952, 1), (1152921504606846976, 0)] =
     Inr \<lparr> st_ommArrayData = [177, 85, 0, 85, 81],
           st_ommDescArray =
              [\<lparr> desc_subdivisionLevel = 2, desc_format = 2, desc_offset = 0 \<rparr>,
               \<lparr> desc_subdivisionLevel = 1, desc_format = 2, desc_offset = 4 \<rparr>],
           st_ommArrayDataOffset = 5,
           st_vmDescOffset = 2,
           st_vmWorkItems = [levelOneItem \<lparr> vmDescOffset := 1 \<rparr>,
                             levelTwoItem \<lparr> vmDescOffset := 0 \<rparr>] \<rparr>"
proof -
  have r5: "replicate 5 (0 :: 8 word) = [0, 0, 0, 0, 0]"
    by (simp add: eval_nat_numeral)
  have r2: "replicate 2 x = [x, x]" for x :: OpacityMicromapDesc
    by (simp add: eval_nat_numeral)
  have adv2: "max (drop_bit 3 (16 * 2 :: 32 word)) 1 = 4"
    by (simp add: drop_bit_eq_div)
  have adv1: "max (drop_bit 3 (4 * 2 :: 32 word)) 1 = 1"
    by (simp add: drop_bit_eq_div)
  have fmt: "ommFormat twoTriangleDesc = OC1_4_State"
    by (simp add: twoTriangleDesc_def)
  show ?thesis
    by (simp add: Serialize_arrays_def twoLevel_sizes fmt Let_def r5 r2
          levelOneItem_fields levelTwoItem_fields kNoSpecialIndex_def GetNumMicroTriangles_def
          twoLevel_states_one twoLevel_states_two adv1 adv2)
qed

lemma twoLevel_histogram_records:
  "Serialize_histogram twoLevelHistogram =
     [\<lparr> usage_count = 1, usage_subdivisionLevel = 1, usage_format = 2 \<rparr>,
      \<lparr> usage_count = 1, usage_subdivisionLevel = 2, usage_format = 2 \<rparr>]"
  by (simp add: Serialize_histogram_def GetOmmCount_def twoLevelHistogram_def kMaxNumSubdivLevels_def
        upt_rec)

lemma twoLevel_idx: "Serialize_indexBuffer [levelOneItem \<lparr> vmDescOffset := 1 \<rparr>, levelTwoItem \<lparr> vmDescOffset := 0 \<rparr>]
               (replicate (unat (indexCount twoTriangleDesc) div 3) FullyUnknownOpaque) = Inr [1, 0]"
proof -
  have "unat (indexCount twoTriangleDesc) div 3 = Suc (Suc 0)"
    by (simp add: twoTriangleDesc_def)
  then show ?thesis
    by (simp add: levelOneItem_fields levelTwoItem_fields kNoSpecialIndex_def)
qed

lemma twoLevel_cmp: "Serialize_compress twoTriangleDesc [1, 0] = I16_UINT [1, 0]"
    by (simp add: Serialize_compress_def twoTriangleDesc_def flag_defs)

lemma twoLevel_bake:
  "BakeImpl_resampled exampleLib exampleMorton twoTriangleDesc [levelOneItem, levelTwoItem] =
     Inr (\<lparr> ommArrayData = [177, 85, 0, 85, 81],
            ommDescArray =
              [\<lparr> desc_subdivisionLevel = 2, desc_format = 2, desc_offset = 0 \<rparr>,
               \<lparr> desc_subdivisionLevel = 1, desc_format = 2, desc_offset = 4 \<rparr>],
            ommIndexBuffer = I16_UINT [1, 0],
            ommArrayHistogram =
              [\<lparr> usage_count = 1, usage_subdivisionLevel = 1, usage_format = 2 \<rparr>,
               \<lparr> usage_count = 1, usage_subdivisionLevel = 2, usage_format = 2 \<rparr>],
            ommIndexHistogram =
              [\<lparr> usage_count = 1, usage_subdivisionLevel = 1, usage_format = 2 \<rparr>,
               \<lparr> usage_count = 1, usage_subdivisionLevel = 2, usage_format = 2 \<rparr>] \<rparr>,
          [levelOneItem \<lparr> vmDescOffset := 1 \<rparr>, levelTwoItem \<lparr> vmDescOffset := 0 \<rparr>])"
proof -
  let ?ws = "[levelOneItem, levelTwoItem]"
  let ?ws' = "[levelOneItem \<lparr> vmDescOffset := 1 \<rparr>, levelTwoItem \<lparr> vmDescOffset := 0 \<rparr>]"
  have o: "Options_new (bakeFlags twoTriangleDesc) = Options_new 0"
    by (simp add: twoTriangleDesc_def)
  have g: "\<not> enableNearDuplicateDetection (Options_new 0)"
    by (simp add: Options_new_def flag_defs)
  have lsh: "DeduplicateSimilarLSH exampleLib (Options_new 0) ?ws 3 = ?ws"
    using g by (simp add: DeduplicateSimilarLSH_def)
  have brute: "DeduplicateSimilarBruteForce (Options_new 0) ?ws = ?ws"
    using g by (simp add: DeduplicateSimilarBruteForce_def)
  have ser: "Serialize twoTriangleDesc (Options_new 0) ?ws twoLevelHistogram twoLevelHistogram
               [(2305843009213693952, 1), (1152921504606846976, 0)] =
     Inr (\<lparr> ommArrayData = [177, 85, 0, 85, 81],
            ommDescArray =
              [\<lparr> desc_subdivisionLevel = 2, desc_format = 2, desc_offset = 0 \<rparr>,
               \<lparr> desc_subdivisionLevel = 1, desc_format = 2, desc_offset = 4 \<rparr>],
            ommIndexBuffer = I16_UINT [1, 0],
            ommArrayHistogram =
              [\<lparr> usage_count = 1, usage_subdivisionLevel = 1, usage_format = 2 \<rparr>,
               \<lparr> usage_count = 1, usage_subdivisionLevel = 2, usage_format = 2 \<rparr>],
            ommIndexHistogram =
              [\<lparr> usage_count = 1, usage_subdivisionLevel = 1, usage_format = 2 \<rparr>,
               \<lparr> usage_count = 1, usage_subdivisionLevel = 2, usage_format = 2 \<rparr>] \<rparr>,
          ?ws')"
    by (simp only: Serialize_def twoLevel_arrays twoLevel_idx sum.case SerializeState.select_convs
          twoLevel_histogram_records twoLevel_cmp)
  show ?thesis
    by (simp only: BakeImpl_resampled_def Let_def o twoLevel_promote twoLevel_exact lsh brute
          twoLevel_histograms twoLevel_sort ser sum.case fst_conv snd_conv)
qed

subsection \<open>The index buffer after a bake\<close>

lemma BakeImpl_resampled_success:
  assumes "BakeImpl_resampled lib mc desc ws0 = Inr (res, ws')"
  obtains ws5 hs where "list_all2 pass_rel ws0 ws5"
    "CreateUsageHistograms ws5 Histogram_new Histogram_new = Inr hs"
    "Serialize desc (Options_new (bakeFlags desc)) ws5 (fst hs) (snd hs)
       (MicromapSpatialSort mc ws5) = Inr (res, ws')"
proof -
  let ?o = "Options_new (bakeFlags desc)"
  let ?ws1 = "PromoteToSpecialIndices desc ?o ws0"
  let ?ws2 = "DeduplicateExact (lsh_XXH64 lib) ?o ?ws1"
  let ?ws3 = "DeduplicateSimilarLSH lib ?o ?ws2 3"
  let ?ws4 = "DeduplicateSimilarBruteForce ?o ?ws3"
  let ?ws5 = "PromoteToSpecialIndices desc ?o ?ws4"
  have r1: "list_all2 pass_rel ws0 ?ws1" by (rule pass_all_promote)
  have r2: "list_all2 pass_rel ws0 ?ws2"
    by (rule pass_all_trans [OF r1]) (rule pass_all_exact)
  have r3: "list_all2 pass_rel ws0 ?ws3"
    by (rule pass_all_trans [OF r2]) (rule pass_all_lsh)
  have r4: "list_all2 pass_rel ws0 ?ws4"
    by (rule pass_all_trans [OF r3]) (rule pass_all_brute)
  have rel: "list_all2 pass_rel ws0 ?ws5"
    by (rule pass_all_trans [OF r4]) (rule pass_all_promote)
  from assms obtain hs where
    "CreateUsageHistograms ?ws5 Histogram_new Histogram_new = Inr hs"
    "Serialize desc ?o ?ws5 (fst hs) (snd hs) (MicromapSpatialSort mc ?ws5) = Inr (res, ws')"
    by (auto simp: BakeImpl_resampled_def Let_def split: sum.splits)
  with rel show ?thesis by (rule that)
qed

lemma pass_all_fresh:
  assumes rel: "list_all2 pass_rel ws0 ws5"
    and fresh: "\<forall>w \<in> set ws0. vmSpecialIndex w = kNoSpecialIndex \<and> vmDescOffset w = 0xFFFFFFFF"
  shows "\<forall>w \<in> set ws5. vmSpecialIndex w \<in> {0, - 1, - 2, - 3, - 4} \<and> vmDescOffset w = 0xFFFFFFFF"
proof
  fix w assume "w \<in> set ws5"
  then obtain i where i: "i < length ws5" and w: "w = ws5 ! i"
    by (auto simp: in_set_conv_nth)
  from rel i have len: "i < length ws0" and pr: "pass_rel (ws0 ! i) (ws5 ! i)"
    by (simp_all add: list_all2_conv_all_nth)
  from len fresh have "vmSpecialIndex (ws0 ! i) = 0 \<and> vmDescOffset (ws0 ! i) = 0xFFFFFFFF"
    by (simp add: kNoSpecialIndex_def)
  with pr w show "vmSpecialIndex w \<in> {0, - 1, - 2, - 3, - 4} \<and> vmDescOffset w = 0xFFFFFFFF"
    by (auto simp: pass_rel_def)
qed

lemma entry_ok_read:
  assumes ok: "entry_ok n t (buf ! i)" and i: "i < length buf"
    and t: "t = unat (indexCount desc) div 3"
  shows "GetOmmIndexForTriangleIndex (Serialize_compress desc buf) i = sint (buf ! i)"
proof (cases "t \<le> 32767")
  case True
  from ok have "- (2 ^ 15) \<le> sint (buf ! i) \<and> sint (buf ! i) < 2 ^ 15"
    unfolding entry_ok_def using True by auto
  then show ?thesis using i by (simp add: Serialize_compress_read)
next
  case False
  then show ?thesis using t i by (simp add: Serialize_compress_def Let_def)
qed

text \<open>
  The entries of the index buffer by value: after a successful bake every entry, read as
  a signed number, is one of \<open>-1, -2, -3, -4\<close> or lies in
  \<open>[0, ommDescArrayCount)\<close>, and there is one entry per triangle. The bake is
  taken from the resampled work items on; they are as \<open>SetupWorkItems\<close> builds them
  (no special index, descriptor offset \<open>0xFFFFFFFF\<close>, at most one work item per
  triangle). By value only: the descriptor offset \<open>0xFFFFFFFF\<close> of a work item that
  the descriptor loop never reached reads as \<open>-1\<close>, so an entry in the negative
  range need not be a special index.
\<close>

lemma index_buffer_entries_numeric:
  assumes fresh: "\<forall>w \<in> set vmWorkItems.
                    vmSpecialIndex w = kNoSpecialIndex \<and> vmDescOffset w = 0xFFFFFFFF"
    and len: "length vmWorkItems \<le> unat (indexCount desc) div 3"
    and bake: "BakeImpl_resampled lib mCodeOf desc vmWorkItems = Inr (res, ws')"
    and i: "i < unat (indexCount desc) div 3"
  shows "ommIndexCount (ommIndexBuffer res) = unat (indexCount desc) div 3 \<and>
         (GetOmmIndexForTriangleIndex (ommIndexBuffer res) i \<in> {- 1, - 2, - 3, - 4} \<or>
          (0 \<le> GetOmmIndexForTriangleIndex (ommIndexBuffer res) i \<and>
           GetOmmIndexForTriangleIndex (ommIndexBuffer res) i < int (length (ommDescArray res))))"
proof -
  let ?t = "unat (indexCount desc) div 3"
  from bake obtain ws5 hs where rel: "list_all2 pass_rel vmWorkItems ws5"
    and ser: "Serialize desc (Options_new (bakeFlags desc)) ws5 (fst hs) (snd hs)
       (MicromapSpatialSort mCodeOf ws5) = Inr (res, ws')"
    by (rule BakeImpl_resampled_success)
  from ser obtain st buf where
    arr: "Serialize_arrays desc ws5 (fst hs) (MicromapSpatialSort mCodeOf ws5) = Inr st"
    and idx: "Serialize_indexBuffer (st_vmWorkItems st) (replicate ?t FullyUnknownOpaque) = Inr buf"
    and rb: "ommIndexBuffer res = Serialize_compress desc buf"
    and rd: "ommDescArray res = st_ommDescArray st"
    by (rule Serialize_success)
  let ?n = "length (st_ommDescArray st)"
  note inv = pass_all_fresh [OF rel fresh]
  have len5: "length ws5 \<le> ?t" using rel len by (simp add: list_all2_lengthD)
  have lst: "length (st_vmWorkItems st) = length ws5"
    using Serialize_arrays_frame [OF arr] by (metis length_map)
  have items: "\<forall>vm \<in> set (st_vmWorkItems st). entry_ok ?n ?t (indexValue vm)"
  proof
    fix vm assume "vm \<in> set (st_vmWorkItems st)"
    then obtain k where k: "k < length ws5" and vm: "vm = st_vmWorkItems st ! k"
      using lst by (auto simp: in_set_conv_nth)
    from Serialize_arrays_entries [OF inv len5 triangleCount_bound arr k] vm
    show "entry_ok ?n ?t (indexValue vm)" by simp
  qed
  have init: "\<forall>v \<in> set (replicate ?t FullyUnknownOpaque). entry_ok ?n ?t v"
    by (simp add: FullyUnknownOpaque_def entry_ok_special)
  have all: "\<forall>v \<in> set buf. entry_ok ?n ?t v"
    using Serialize_indexBuffer_set [OF idx] items init by blast
  have lb: "length buf = ?t" using Serialize_indexBuffer_length [OF idx] by simp
  then have ok: "entry_ok ?n ?t (buf ! i)" using all i by simp
  have rd': "GetOmmIndexForTriangleIndex (ommIndexBuffer res) i = sint (buf ! i)"
    using entry_ok_read [OF ok _ refl] i lb rb by simp
  show ?thesis
    using ok rd' rd rb lb by (auto simp: entry_ok_def Serialize_compress_count)
qed


subsection \<open>The order of the descriptors\<close>

lemma unat_drop_bit_60: "unat (drop_bit 60 (w :: 64 word)) = unat w div 2 ^ 60"
proof -
  have "unat (drop_bit 60 w) = drop_bit 60 (unat w)" by (rule unat_drop_bit_eq)
  also have "\<dots> = unat w div 2 ^ 60" by (rule drop_bit_eq_div)
  finally show ?thesis .
qed

lemma sortKey_level:
  assumes l: "l < 16" and m: "m < (2 ^ 60 :: 64 word)"
  shows "unat (push_bit 60 (of_nat l :: 64 word) OR m) div 2 ^ 60 = l"
proof -
  have um: "unat m < 2 ^ 60"
    using m by (simp add: word_less_nat_alt)
  have "unat (drop_bit 60 m) = 0"
    using um by (simp only: unat_drop_bit_60) simp
  then have dm: "drop_bit 60 m = 0"
    by (simp only: unat_eq_0)
  have ul: "unat (of_nat l :: 64 word) = l"
    using l by (simp add: unat_of_nat)
  have "unat (push_bit 60 (of_nat l :: 64 word)) = (unat (of_nat l :: 64 word) * unat (2 ^ 60 :: 64 word)) mod 2 ^ LENGTH(64)"
    unfolding push_bit_eq_mult by (rule unat_word_ariths(2))
  also have "\<dots> = (l * 2 ^ 60) mod 2 ^ 64"
    by (simp add: ul)
  also have "\<dots> = l * 2 ^ 60"
    using l by simp
  finally have up: "unat (push_bit 60 (of_nat l :: 64 word)) = l * 2 ^ 60" .
  have "unat (drop_bit 60 (push_bit 60 (of_nat l :: 64 word))) = l"
    by (simp only: unat_drop_bit_60 up) simp
  then have dp: "drop_bit 60 (push_bit 60 (of_nat l :: 64 word)) = of_nat l"
    using ul by (simp only: word_unat_eq_iff)
  have "unat (push_bit 60 (of_nat l :: 64 word) OR m) div 2 ^ 60
          = unat (drop_bit 60 (push_bit 60 (of_nat l :: 64 word) OR m))"
    by (simp only: unat_drop_bit_60)
  also have "\<dots> = unat (of_nat l :: 64 word)"
    by (simp only: drop_bit_or dm dp) simp
  finally show ?thesis by (simp only: ul)
qed

lemma emitted_cong:
  "map eraseOffset ws' = map eraseOffset ws \<Longrightarrow> \<forall>key \<in> set keys. unat (snd key) < length ws \<Longrightarrow>
   emitted ws' keys = emitted ws keys \<and> map (keyLevel ws') (emitted ws' keys) = map (keyLevel ws) (emitted ws keys)"
proof -
  assume eq: "map eraseOffset ws' = map eraseOffset ws"
    and inr: "\<forall>key \<in> set keys. unat (snd key) < length ws"
  have a: "vmSpecialIndex (ws' ! unat (snd key)) = vmSpecialIndex (ws ! unat (snd key)) \<and>
           subdivisionLevel (ws' ! unat (snd key)) = subdivisionLevel (ws ! unat (snd key))"
    if "key \<in> set keys" for key
    using map_eraseOffset_nth [OF eq] inr that by blast
  have e: "emitted ws' keys = emitted ws keys"
    unfolding emitted_def using a by (intro filter_cong) simp_all
  have "map (keyLevel ws') (emitted ws keys) = map (keyLevel ws) (emitted ws keys)"
    using a by (intro map_cong) (simp_all add: emitted_def keyLevel_def)
  with e show ?thesis by simp
qed

lemma Serialize_loop_in_range:
  "Serialize_loop b s keys st = Inr st' \<Longrightarrow> \<forall>key \<in> set keys. unat (snd key) < length (st_vmWorkItems st)"
proof (induction keys arbitrary: st)
  case Nil
  then show ?case by simp
next
  case (Cons key keys)
  from Cons.prems show ?case
  proof (cases rule: Serialize_loop_step)
    case skip
    with Cons.IH [OF skip(3)] show ?thesis by simp
  next
    case (emit bytes)
    with Cons.IH [OF emit(5)] show ?thesis by simp
  qed
qed

lemma unat_succ_eq: "unat c < n \<Longrightarrow> n < 4294967296 \<Longrightarrow> unat (c + 1 :: 32 word) = unat c + 1"
proof -
  assume "unat c < n" "n < 4294967296"
  then have "unat c + unat (1 :: 32 word) < 2 ^ LENGTH(32)" by simp
  then have "unat (c + 1) = unat c + unat (1 :: 32 word)" by (simp only: unat_add_lem)
  then show ?thesis by simp
qed

lemma Serialize_loop_levels:
  assumes "Serialize_loop b s keys st = Inr st'"
    and "length (st_ommDescArray st) < 4294967296"
  shows "map desc_subdivisionLevel (st_ommDescArray st') =
           take (unat (st_vmDescOffset st)) (map desc_subdivisionLevel (st_ommDescArray st)) @
           map (keyLevel (st_vmWorkItems st)) (emitted (st_vmWorkItems st) keys) @
           drop (unat (st_vmDescOffset st) + length (emitted (st_vmWorkItems st) keys))
             (map desc_subdivisionLevel (st_ommDescArray st))"
  using assms
proof (induction keys arbitrary: st)
  case Nil
  then show ?case by (simp add: emitted_def)
next
  case (Cons key keys)
  from Cons.prems(1) show ?case
  proof (cases rule: Serialize_loop_step)
    case skip
    from Cons.IH [OF skip(3) Cons.prems(2)] skip(2) show ?thesis
      by (simp add: emitted_def)
  next
    case (emit bytes)
    let ?ws = "st_vmWorkItems st"
    let ?k = "unat (snd key)"
    let ?c = "unat (st_vmDescOffset st)"
    let ?L = "map desc_subdivisionLevel (st_ommDescArray st)"
    let ?st1 = "\<lparr> st_ommArrayData = bytes,
          st_ommDescArray = (st_ommDescArray st)[unat (st_vmDescOffset st) :=
             \<lparr> desc_subdivisionLevel = of_nat (subdivisionLevel (st_vmWorkItems st ! ?k)),
               desc_format = OMMFormat_u16 (vmFormat (st_vmWorkItems st ! ?k)),
               desc_offset = st_ommArrayDataOffset st \<rparr>],
          st_ommArrayDataOffset = st_ommArrayDataOffset st +
             max (drop_bit 3 (of_nat (GetNumMicroTriangles
                    (subdivisionLevel (st_vmWorkItems st ! ?k))) * of_nat b)) 1,
          st_vmDescOffset = st_vmDescOffset st + 1,
          st_vmWorkItems = (st_vmWorkItems st)[?k :=
             (st_vmWorkItems st ! ?k) \<lparr> vmDescOffset := st_vmDescOffset st \<rparr>] \<rparr>"
    have len1: "length (st_ommDescArray ?st1) < 4294967296" using Cons.prems(2) by simp
    note ih = Cons.IH [OF emit(5) len1]
    have c1: "unat (st_vmDescOffset ?st1) = ?c + 1"
      using unat_succ_eq [OF emit(4) Cons.prems(2)] by simp
    have L1: "map desc_subdivisionLevel (st_ommDescArray ?st1) = ?L[?c := keyLevel ?ws key]"
      by (simp add: map_update keyLevel_def)
    have er: "map eraseOffset (st_vmWorkItems ?st1) = map eraseOffset ?ws"
      using emit(1) by (simp add: eraseOffset_update)
    have rng: "\<forall>key \<in> set keys. unat (snd key) < length ?ws"
      using Serialize_loop_in_range [OF emit(5)] by simp
    note cg = emitted_cong [OF er rng]
    have em: "emitted ?ws (key # keys) = key # emitted ?ws keys"
      using emit(2) by (simp add: emitted_def)
    have cl: "?c < length ?L" using emit(4) by simp
    have tk: "take (?c + 1) (?L[?c := keyLevel ?ws key]) = take ?c ?L @ [keyLevel ?ws key]"
      using cl by (simp add: take_Suc_conv_app_nth)
    have dr: "drop (?c + 1 + n) (?L[?c := keyLevel ?ws key]) = drop (?c + (1 + n)) ?L" for n
      by (simp add: add.assoc)
    from cg have e1: "emitted (st_vmWorkItems ?st1) keys = emitted ?ws keys" by (rule conjunct1)
    from cg have e2: "map (keyLevel (st_vmWorkItems ?st1)) (emitted ?ws keys) =
        map (keyLevel ?ws) (emitted ?ws keys)"
      by (simp only: e1)
    have "map desc_subdivisionLevel (st_ommDescArray st') =
        (take ?c ?L @ [keyLevel ?ws key]) @ map (keyLevel ?ws) (emitted ?ws keys) @
        drop (?c + (1 + length (emitted ?ws keys))) ?L"
      using ih by (simp only: c1 L1 tk dr e1 e2)
    then show ?thesis
      by (simp only: em list.map list.size append_Cons append_Nil append_assoc add.commute [of _ 1])
        simp
  qed
qed

lemma CreateUsageHistograms_levels:
  "CreateUsageHistograms ws a i = Inr hs \<Longrightarrow>
   \<forall>w \<in> set ws. vmSpecialIndex w = kNoSpecialIndex \<longrightarrow> subdivisionLevel w < kMaxNumSubdivLevels"
proof (induction ws arbitrary: a i)
  case Nil
  then show ?case by simp
next
  case (Cons w ws)
  show ?case
  proof (cases "vmSpecialIndex w = kNoSpecialIndex")
    case False
    with Cons.prems have "CreateUsageHistograms ws a i = Inr hs" by simp
    from Cons.IH [OF this] False show ?thesis by simp
  next
    case True
    with Cons.prems obtain a' i' where
      inc: "Inc a (vmFormat w) (subdivisionLevel w) 1 = Inr a'"
      and rest: "CreateUsageHistograms ws a' i' = Inr hs"
      by (auto split: sum.splits)
    from inc have "subdivisionLevel w < kMaxNumSubdivLevels"
      by (simp add: Inc_def split: if_splits)
    with Cons.IH [OF rest] show ?thesis by simp
  qed
qed

lemma MicromapSpatialSort_descending:
  "sorted_wrt (\<lambda>a b. unat (fst b) \<le> unat (fst a)) (MicromapSpatialSort mc ws)"
proof -
  let ?xs = "map (\<lambda>vmIndex. sortKey mc vmIndex (ws ! vmIndex)) [0 ..< length ws]"
  have "sorted (map keyOrder (sort_key keyOrder ?xs))" by (rule sorted_sort_key)
  then have "sorted_wrt (\<lambda>a b. keyOrder a \<le> keyOrder b) (sort_key keyOrder ?xs)"
    by (simp only: sorted_map)
  then have "sorted_wrt (\<lambda>a b. keyOrder b \<le> keyOrder a) (rev (sort_key keyOrder ?xs))"
    by (simp only: sorted_wrt_rev)
  moreover have "MicromapSpatialSort mc ws = rev (sort_key keyOrder ?xs)"
    unfolding MicromapSpatialSort_def keyOrder_def by (rule refl)
  ultimately have "sorted_wrt (\<lambda>a b. keyOrder b \<le> keyOrder a) (MicromapSpatialSort mc ws)"
    by simp
  then show ?thesis
    by (rule sorted_wrt_mono_rel [rotated]) (auto simp: keyOrder_def less_eq_prod_def)
qed

lemma emitted_key_level:
  assumes len: "length ws < 4294967296"
    and lv: "\<forall>w \<in> set ws. vmSpecialIndex w = kNoSpecialIndex \<longrightarrow> subdivisionLevel w < kMaxNumSubdivLevels"
    and mc: "\<forall>w \<in> set ws. mc (uvTri w) < 2 ^ 60"
    and key: "key \<in> set (emitted ws (MicromapSpatialSort mc ws))"
  shows "unat (keyLevel ws key) = unat (fst key) div 2 ^ 60"
proof -
  from key obtain i where i: "i < length ws" and k: "key = sortKey mc i (ws ! i)"
    and ns: "vmSpecialIndex (ws ! unat (snd key)) = kNoSpecialIndex"
    by (auto simp: emitted_def MicromapSpatialSort_set)
  have si: "unat (snd key) = i" using i len by (simp add: k sortKey_snd unat_of_nat_32)
  have mem: "ws ! i \<in> set ws" using i by simp
  from ns si have ns': "vmSpecialIndex (ws ! i) = kNoSpecialIndex" by simp
  with lv mem have l13: "subdivisionLevel (ws ! i) < kMaxNumSubdivLevels" by blast
  then have l16: "subdivisionLevel (ws ! i) < 16" by (simp add: kMaxNumSubdivLevels_def)
  from mc mem have m: "mc (uvTri (ws ! i)) < 2 ^ 60" by blast
  have fk: "fst key = push_bit 60 (of_nat (subdivisionLevel (ws ! i))) OR mc (uvTri (ws ! i))"
    using ns' by (simp add: k sortKey_def)
  have "unat (fst key) div 2 ^ 60 = subdivisionLevel (ws ! i)"
    unfolding fk by (rule sortKey_level [OF l16 m])
  moreover have "unat (keyLevel ws key) = subdivisionLevel (ws ! i)"
    using l16 by (simp add: keyLevel_def si unat_of_nat)
  ultimately show ?thesis by simp
qed

lemma emitted_levels_descending:
  assumes len: "length ws < 4294967296"
    and lv: "\<forall>w \<in> set ws. vmSpecialIndex w = kNoSpecialIndex \<longrightarrow> subdivisionLevel w < kMaxNumSubdivLevels"
    and mc: "\<forall>w \<in> set ws. mc (uvTri w) < 2 ^ 60"
  shows "sorted_wrt (\<lambda>a b. b \<le> a) (map (keyLevel ws) (emitted ws (MicromapSpatialSort mc ws)))"
proof -
  let ?keys = "MicromapSpatialSort mc ws"
  have "sorted_wrt (\<lambda>a b. unat (fst b) \<le> unat (fst a)) (emitted ws ?keys)"
    unfolding emitted_def by (rule sorted_wrt_filter) (rule MicromapSpatialSort_descending)
  then have "sorted_wrt (\<lambda>a b. keyLevel ws b \<le> keyLevel ws a) (emitted ws ?keys)"
  proof (rule sorted_wrt_mono_rel [rotated])
    fix a b
    assume a: "a \<in> set (emitted ws ?keys)" and b: "b \<in> set (emitted ws ?keys)"
      and le: "unat (fst b) \<le> unat (fst a)"
    from le have "unat (fst b) div 2 ^ 60 \<le> unat (fst a) div 2 ^ 60" by (rule div_le_mono)
    then have "unat (keyLevel ws b) \<le> unat (keyLevel ws a)"
      by (simp only: emitted_key_level [OF len lv mc a] emitted_key_level [OF len lv mc b])
    then show "keyLevel ws b \<le> keyLevel ws a" by (simp only: word_le_nat_alt)
  qed
  then show ?thesis by (simp only: sorted_wrt_map)
qed

lemma Serialize_arrays_levels:
  assumes ok: "Serialize_arrays desc ws ah keys = Inr st"
  shows "\<exists>n. map desc_subdivisionLevel (st_ommDescArray st) =
            map (keyLevel ws) (emitted ws keys) @ replicate n 0
          \<or> st_ommDescArray st = []"
  using ok
proof (cases rule: Serialize_arrays_cases)
  case empty
  then show ?thesis by simp
next
  case (loop st0)
  let ?n = "unat (fst (Serialize_sizes desc ah))"
  have "?n < 2 ^ LENGTH(32)" by (rule unsigned_less)
  then have len: "length (st_ommDescArray st0) < 4294967296" by (simp add: loop(4))
  have L: "map desc_subdivisionLevel (st_ommDescArray st0) = replicate ?n 0"
    by (simp add: loop(4))
  have "map desc_subdivisionLevel (st_ommDescArray st) =
          map (keyLevel ws) (emitted ws keys) @ replicate (?n - length (emitted ws keys)) 0"
    using Serialize_loop_levels [OF loop(3) len] by (simp add: loop(1,2) L)
  then show ?thesis by blast
qed

lemma descending_zeros: "sorted_wrt (\<lambda>a b. b \<le> a) (replicate n (0 :: 16 word))"
  by (induction n) simp_all

lemma descending_padded:
  assumes "sorted_wrt (\<lambda>a b. b \<le> a) (xs :: 16 word list)"
  shows "sorted_wrt (\<lambda>a b. b \<le> a) (xs @ replicate n 0)"
  using assms by (simp add: sorted_wrt_append descending_zeros)

text \<open>
  C5: after a successful bake the descriptors are in non-increasing order of subdivision
  level, provided the Morton codes are below \<open>2 ^ 60\<close> (what \<open>MicromapSpatialSort\<close>
  asserts of them) and there are no more work items than triangles.
\<close>

theorem descriptors_sorted_by_level:
  assumes mc: "\<forall>w \<in> set vmWorkItems. mCodeOf (uvTri w) < 2 ^ 60"
    and len: "length vmWorkItems \<le> unat (indexCount desc) div 3"
    and ok: "BakeImpl_resampled lib mCodeOf desc vmWorkItems = Inr (res, ws')"
  shows "\<forall>i j. i < j \<and> j < length (ommDescArray res) \<longrightarrow>
           desc_subdivisionLevel (ommDescArray res ! j) \<le> desc_subdivisionLevel (ommDescArray res ! i)"
proof -
  from ok obtain ws5 hs where rel: "list_all2 pass_rel vmWorkItems ws5"
    and hist: "CreateUsageHistograms ws5 Histogram_new Histogram_new = Inr hs"
    and ser: "Serialize desc (Options_new (bakeFlags desc)) ws5 (fst hs) (snd hs)
       (MicromapSpatialSort mCodeOf ws5) = Inr (res, ws')"
    by (rule BakeImpl_resampled_success)
  from ser obtain st where arr: "Serialize_arrays desc ws5 (fst hs) (MicromapSpatialSort mCodeOf ws5) = Inr st"
    and descs: "ommDescArray res = st_ommDescArray st"
    by (rule Serialize_success)
  from rel have l5: "length ws5 = length vmWorkItems" by (simp add: list_all2_lengthD)
  have len5: "length ws5 < 4294967296"
    using len triangleCount_bound [of desc] by (simp add: l5)
  have mc5: "\<forall>w \<in> set ws5. mCodeOf (uvTri w) < 2 ^ 60"
  proof
    fix w assume "w \<in> set ws5"
    then obtain i where i: "i < length ws5" and w: "w = ws5 ! i" by (auto simp: in_set_conv_nth)
    from rel i have "pass_rel (vmWorkItems ! i) (ws5 ! i)" by (simp add: list_all2_nthD2)
    then have "uvTri w = uvTri (vmWorkItems ! i)" by (simp add: pass_rel_def w)
    moreover have "vmWorkItems ! i \<in> set vmWorkItems" using i l5 by simp
    ultimately show "mCodeOf (uvTri w) < 2 ^ 60" using mc by simp
  qed
  note lv5 = CreateUsageHistograms_levels [OF hist]
  let ?L = "map desc_subdivisionLevel (ommDescArray res)"
  have "sorted_wrt (\<lambda>a b. b \<le> a) ?L"
    using Serialize_arrays_levels [OF arr]
  proof (elim exE disjE)
    fix n
    assume "map desc_subdivisionLevel (st_ommDescArray st) =
        map (keyLevel ws5) (emitted ws5 (MicromapSpatialSort mCodeOf ws5)) @ replicate n 0"
    then show ?thesis
      by (simp only: descs descending_padded [OF emitted_levels_descending [OF len5 lv5 mc5]])
  next
    assume "st_ommDescArray st = []"
    then show ?thesis by (simp add: descs)
  qed
  then have "\<forall>i j. i < j \<longrightarrow> j < length ?L \<longrightarrow> ?L ! j \<le> ?L ! i"
    by (simp only: sorted_wrt_iff_nth_less)
  then show ?thesis by simp
qed

theorem descriptors_sorted_by_level_witness:
  "exampleMorton (uvTri levelOneItem) < 2 ^ 60 \<and>
   exampleMorton (uvTri levelTwoItem) < 2 ^ 60 \<and>
   length [levelOneItem, levelTwoItem] \<le> unat (indexCount twoTriangleDesc) div 3 \<and>
   (\<exists>res ws'. BakeImpl_resampled exampleLib exampleMorton twoTriangleDesc [levelOneItem, levelTwoItem]
       = Inr (res, ws') \<and>
     length (ommDescArray res) = 2 \<and>
     desc_subdivisionLevel (ommDescArray res ! 0) = 2 \<and>
     desc_subdivisionLevel (ommDescArray res ! 1) = 1 \<and>
     desc_subdivisionLevel (ommDescArray res ! 1) \<le> desc_subdivisionLevel (ommDescArray res ! 0))"
proof -
  have m1: "exampleMorton (uvTri levelOneItem) < 2 ^ 60"
    and m2: "exampleMorton (uvTri levelTwoItem) < 2 ^ 60"
    by (simp_all add: exampleMorton_def)
  from m1 m2 have mc: "\<forall>w \<in> set [levelOneItem, levelTwoItem]. exampleMorton (uvTri w) < 2 ^ 60"
    by simp
  have len: "length [levelOneItem, levelTwoItem] \<le> unat (indexCount twoTriangleDesc) div 3"
    by (simp add: twoTriangleDesc_def)
  note ok = twoLevel_bake
  note s = descriptors_sorted_by_level [OF mc len ok, rule_format, of 0 1]
  from m1 m2 len ok s show ?thesis by simp
qed

end
